theory Spec2Isabelle
  imports Main "HOL-Library.Char_ord" "HOL-Library.List_Lexorder" "HOL-Library.Log_Nat"
    "HOL-Library.Multiset"
begin

section \<open>Strings and regular expressions of the host language\<close>

text \<open>
  A JavaScript string is modelled as a \<^typ>\<open>string\<close>: every \<^typ>\<open>char\<close> stands for the UTF-16
  code unit of the same number, so the model covers the strings whose code units are below 256.
  The order \<open><\<close> on strings (List_Lexorder over Char_ord) is the code-unit-wise lexicographic
  order JavaScript's \<open><\<close> uses on two strings.
\<close>

definition digits :: string where
  "digits = ''0123456789''"

text \<open>\<open>\s\<close>: tab, line feed, vertical tab, form feed, carriage return, space, no-break space.\<close>

definition white_space :: string where
  "white_space = [CHR 0x09, CHR 0x0A, CHR 0x0B, CHR 0x0C, CHR 0x0D, CHR '' '', CHR 0xA0]"

text \<open>The line terminators, which \<open>.\<close> does not match.\<close>

definition line_terminators :: string where
  "line_terminators = [CHR 0x0A, CHR 0x0D]"

text \<open>
  The patterns the source tests a whole string with are anchored at both ends (\<open>^...$\<close>,
  without the \<open>m\<close> flag) and built from character classes. \<open>Cls cs\<close> is the class \<open>[cs]\<close>,
  \<open>NCls cs\<close> the negated class \<open>[^cs]\<close>. Whether an anchored pattern matches does not depend
  on greedy or lazy quantifiers, so \<open>*?\<close> and \<open>*\<close> are both \<open>Star\<close>. Matching is by derivatives.
\<close>

datatype rx = Empty | Eps | Cls string | NCls string | Seq rx rx | Alt rx rx | Star rx

definition Opt :: "rx \<Rightarrow> rx" where
  "Opt r = Alt r Eps"

definition Plus :: "rx \<Rightarrow> rx" where
  "Plus r = Seq r (Star r)"

fun nullable :: "rx \<Rightarrow> bool" where
  "nullable Empty = False"
| "nullable Eps = True"
| "nullable (Cls cs) = False"
| "nullable (NCls cs) = False"
| "nullable (Seq r s) = (nullable r \<and> nullable s)"
| "nullable (Alt r s) = (nullable r \<or> nullable s)"
| "nullable (Star r) = True"

fun deriv :: "char \<Rightarrow> rx \<Rightarrow> rx" where
  "deriv c Empty = Empty"
| "deriv c Eps = Empty"
| "deriv c (Cls cs) = (if c \<in> set cs then Eps else Empty)"
| "deriv c (NCls cs) = (if c \<in> set cs then Empty else Eps)"
| "deriv c (Seq r s) =
     (if nullable r then Alt (Seq (deriv c r) s) (deriv c s) else Seq (deriv c r) s)"
| "deriv c (Alt r s) = Alt (deriv c r) (deriv c s)"
| "deriv c (Star r) = Seq (deriv c r) (Star r)"

text \<open>\<open>rx_test r s\<close>: the anchored expression \<open>^r$\<close> matches the string \<open>s\<close>.\<close>

fun rx_test :: "rx \<Rightarrow> string \<Rightarrow> bool" where
  "rx_test r [] = nullable r"
| "rx_test r (c # s) = rx_test (deriv c r) s"

text \<open>\<open>/^0+.*$/\<close> of \<open>alphaNumeric\<close>.\<close>

definition rx_leading_zero :: rx where
  "rx_leading_zero = Seq (Plus (Cls ''0'')) (Star (NCls line_terminators))"

text \<open>\<open>/^-?\D*?[\d,.]+[\s%]*?$/\<close> of \<open>guessDataType\<close>.\<close>

definition rx_number :: rx where
  "rx_number =
     Seq (Opt (Cls ''-''))
       (Seq (Star (NCls digits))
         (Seq (Plus (Cls (digits @ '',.''))) (Star (Cls (white_space @ ''%'')))))"

text \<open>
  \<open>/^(\d\d?)[/.-](\d\d?)[/.-]((\d\d)?\d\d)$/\<close> of \<open>guessDataType\<close>, with its capture groups 1, 2
  and 3. The candidates are tried in the order a backtracking matcher tries them (\<open>\d\d?\<close> and
  \<open>(\d\d)?\<close> are greedy: the longer alternative first); the first that fits is the match.
\<close>

definition all_digits :: "string \<Rightarrow> bool" where
  "all_digits s = list_all (\<lambda>c. c \<in> set digits) s"

definition rx_date :: "string \<Rightarrow> (string \<times> string \<times> string) option" where
  "rx_date s =
     (case [(g1, g2, g3).
              n1 \<leftarrow> [2, 1], n2 \<leftarrow> [2, 1], n3 \<leftarrow> [4, 2],
              g1 \<leftarrow> [take n1 s], g2 \<leftarrow> [take n2 (drop (n1 + 1) s)],
              g3 \<leftarrow> [drop (n1 + 1 + n2 + 1) s],
              length g1 = n1 \<and> all_digits g1 \<and>
              take 1 (drop n1 s) \<in> {''/'', ''.'', ''-''} \<and>
              length g2 = n2 \<and> all_digits g2 \<and>
              take 1 (drop (n1 + 1 + n2) s) \<in> {''/'', ''.'', ''-''} \<and>
              length g3 = n3 \<and> all_digits g3]
      of [] \<Rightarrow> None | m # _ \<Rightarrow> Some m)"

text \<open>\<open>String.prototype.substr(start, length)\<close> with non-negative arguments.\<close>

definition substr :: "string \<Rightarrow> nat \<Rightarrow> nat \<Rightarrow> string" where
  "substr s start len = take len (drop start s)"

text \<open>\<open>getElementText\<close>: \<open>el.textContent.replace(/^\s+|\s+$/g, '')\<close>.\<close>

definition getElementText :: "string \<Rightarrow> string" where
  "getElementText textContent =
     rev (dropWhile (\<lambda>c. c \<in> set white_space)
       (rev (dropWhile (\<lambda>c. c \<in> set white_space) textContent)))"

section \<open>Numbers of the host language\<close>

text \<open>
  A JavaScript number is an IEEE 754 binary64 value. Every finite binary64 value is an integer
  multiple of \<open>2^-1074\<close>, so \<open>Fin n\<close> stands for the value \<open>n * 2^-1074\<close>. The two zeros are
  not told apart: no comparator's sign depends on the sign of a zero.
\<close>

datatype jsnum = NaN | NegInf | Fin int | PosInf

text \<open>
  One is \<open>2^1074\<close> units. The largest finite value is \<open>(2^53 - 1) * 2^2045\<close> units; what rounds
  to \<open>2^2098\<close> units or more is infinite.
\<close>

definition unit_scale :: int where
  "unit_scale = 2 ^ 1074"

definition overflow_bound :: int where
  "overflow_bound = 2 ^ 2098"

text \<open>
  \<open>round_grid n d\<close> is the binary64 value nearest to \<open>n / d\<close> units for \<open>d > 0\<close>: round to
  nearest, ties to even, 53 significant bits (\<open>round_units\<close>, on the absolute value), overflow
  to an infinity. Below \<open>2^53\<close> units the spacing of the values is one unit (subnormals and
  the first normal binade); above, it is \<open>2^k\<close> units where \<open>k\<close> is the bit length of the
  integer part minus 53.
\<close>

definition round_units :: "int \<Rightarrow> int \<Rightarrow> int" where
  "round_units a d =
     (let k = nat (bitlen (a div d) - 53);
          d' = d * 2 ^ k;
          q = a div d';
          r = a mod d';
          q' = (if 2 * r > d' \<or> (2 * r = d' \<and> odd q) then q + 1 else q)
      in q' * 2 ^ k)"

definition round_grid :: "int \<Rightarrow> int \<Rightarrow> jsnum" where
  "round_grid n d =
     (let m = round_units \<bar>n\<bar> d
      in if m \<ge> overflow_bound then (if n < 0 then NegInf else PosInf)
         else Fin (if n < 0 then - m else m))"

text \<open>The number value of the mathematical value \<open>p * b^e\<close>.\<close>

definition number_value :: "int \<Rightarrow> int \<Rightarrow> int \<Rightarrow> jsnum" where
  "number_value p b e =
     (if e \<ge> 0 then round_grid (p * b ^ nat e * unit_scale) 1
      else round_grid (p * unit_scale) (b ^ nat (- e)))"

definition js_int :: "int \<Rightarrow> jsnum" where
  "js_int i = number_value i 10 0"

text \<open>\<open>x - y\<close> on numbers.\<close>

fun js_sub :: "jsnum \<Rightarrow> jsnum \<Rightarrow> jsnum" where
  "js_sub NaN y = NaN"
| "js_sub x NaN = NaN"
| "js_sub PosInf PosInf = NaN"
| "js_sub NegInf NegInf = NaN"
| "js_sub PosInf y = PosInf"
| "js_sub NegInf y = NegInf"
| "js_sub x PosInf = NegInf"
| "js_sub x NegInf = PosInf"
| "js_sub (Fin a) (Fin b) = round_grid (a - b) 1"

text \<open>\<open>x < y\<close> on numbers (false when either is NaN).\<close>

fun js_num_less :: "jsnum \<Rightarrow> jsnum \<Rightarrow> bool" where
  "js_num_less NaN y = False"
| "js_num_less x NaN = False"
| "js_num_less PosInf y = False"
| "js_num_less x NegInf = False"
| "js_num_less NegInf y = True"
| "js_num_less x PosInf = True"
| "js_num_less (Fin a) (Fin b) = (a < b)"

datatype sign = Negative | Zero | Positive

text \<open>The sign of a number; NaN has none.\<close>

fun sign_of :: "jsnum \<Rightarrow> sign option" where
  "sign_of NaN = None"
| "sign_of NegInf = Some Negative"
| "sign_of PosInf = Some Positive"
| "sign_of (Fin n) = Some (if n < 0 then Negative else if n = 0 then Zero else Positive)"

subsection \<open>Reading numbers from strings\<close>

definition digit_val :: "char \<Rightarrow> nat" where
  "digit_val c = of_char c - of_char CHR ''0''"

text \<open>The value of a string of decimal digits (\<open>parseInt(g, 10)\<close> on such a string).\<close>

definition parseInt10 :: "string \<Rightarrow> int" where
  "parseInt10 g = foldl (\<lambda>n c. 10 * n + int (digit_val c)) 0 g"

definition is_digit :: "char \<Rightarrow> bool" where
  "is_digit c = (c \<in> set digits)"

definition is_space :: "char \<Rightarrow> bool" where
  "is_space c = (c \<in> set white_space)"

text \<open>\<open>ExponentPart\<close>: \<open>e\<close> or \<open>E\<close>, an optional sign, at least one digit; absent, exponent 0.\<close>

definition scan_exponent :: "string \<Rightarrow> int \<times> string" where
  "scan_exponent r =
     (if take 1 r \<in> {''e'', ''E''} then
        (let sg = take 1 (drop 1 r);
             r' = (if sg \<in> {''+'', ''-''} then drop 2 r else drop 1 r);
             ds = takeWhile is_digit r'
         in if ds = [] then (0, r)
            else (if sg = ''-'' then - parseInt10 ds else parseInt10 ds,
                  dropWhile is_digit r'))
      else (0, r))"

text \<open>
  The longest prefix that is a \<open>StrUnsignedDecimalLiteral\<close> (\<open>Infinity\<close>, \<open>digits\<close>,
  \<open>digits.\<close>, \<open>digits.digits\<close>, \<open>.digits\<close>, each but the first with an optional exponent):
  its value as \<open>None\<close> for Infinity or \<open>Some (m, e)\<close> for \<open>m * 10^e\<close>, and the rest of the
  string.
\<close>

definition scan_unsigned :: "string \<Rightarrow> ((int \<times> int) option \<times> string) option" where
  "scan_unsigned u =
     (if take 8 u = ''Infinity'' then Some (None, drop 8 u)
      else
        (let ip = takeWhile is_digit u;
             r1 = dropWhile is_digit u;
             dot = (take 1 r1 = ''.'');
             fp = (if dot then takeWhile is_digit (drop 1 r1) else []);
             r2 = (if dot then dropWhile is_digit (drop 1 r1) else r1)
         in if ip = [] \<and> fp = [] then None
            else (case scan_exponent r2 of
                    (ex, r3) \<Rightarrow> Some (Some (parseInt10 (ip @ fp), ex - int (length fp)), r3))))"

text \<open>\<open>StrDecimalLiteral\<close>: an optional sign and a \<open>StrUnsignedDecimalLiteral\<close>.\<close>

definition scan_decimal :: "string \<Rightarrow> (jsnum \<times> string) option" where
  "scan_decimal t =
     (let neg = (take 1 t = ''-'');
          u = (if take 1 t \<in> {''+'', ''-''} then drop 1 t else t)
      in case scan_unsigned u of
           None \<Rightarrow> None
         | Some (None, r) \<Rightarrow> Some (if neg then NegInf else PosInf, r)
         | Some (Some (m, e), r) \<Rightarrow> Some (number_value (if neg then - m else m) 10 e, r))"

text \<open>\<open>parseFloat\<close> on a string: leading white space is skipped, what follows the literal ignored.\<close>

definition parseFloat :: "string \<Rightarrow> jsnum" where
  "parseFloat s =
     (case scan_decimal (dropWhile is_space s) of None \<Rightarrow> NaN | Some (v, r) \<Rightarrow> v)"

text \<open>
  \<open>0x\<close>, \<open>0o\<close> and \<open>0b\<close> literals of \<open>StringToNumber\<close>: the digits of the base, at least one.
\<close>

definition base_digit :: "char \<Rightarrow> nat option" where
  "base_digit c =
     (if c \<in> set digits then Some (of_char c - of_char CHR ''0'')
      else if c \<in> set ''abcdef'' then Some (of_char c - of_char CHR ''a'' + 10)
      else if c \<in> set ''ABCDEF'' then Some (of_char c - of_char CHR ''A'' + 10)
      else None)"

definition scan_base :: "nat \<Rightarrow> string \<Rightarrow> jsnum option" where
  "scan_base b ds =
     (if ds \<noteq> [] \<and> list_all (\<lambda>c. case base_digit c of None \<Rightarrow> False | Some v \<Rightarrow> v < b) ds
      then Some (number_value
                   (foldl (\<lambda>n c. int b * n + (case base_digit c of None \<Rightarrow> 0 | Some v \<Rightarrow> int v)) 0 ds)
                   10 0)
      else None)"

definition scan_nondecimal :: "string \<Rightarrow> jsnum option" where
  "scan_nondecimal t =
     (if take 2 t \<in> {''0x'', ''0X''} then scan_base 16 (drop 2 t)
      else if take 2 t \<in> {''0o'', ''0O''} then scan_base 8 (drop 2 t)
      else if take 2 t \<in> {''0b'', ''0B''} then scan_base 2 (drop 2 t)
      else None)"

definition trim :: "string \<Rightarrow> string" where
  "trim s = rev (dropWhile is_space (rev (dropWhile is_space s)))"

text \<open>
  \<open>StringToNumber\<close>, the conversion \<open>isNaN(s)\<close> and \<open>s - t\<close> apply to a string: white space at
  both ends is dropped, the empty string is 0, and the whole of what is left must be a literal.
\<close>

definition StringToNumber :: "string \<Rightarrow> jsnum" where
  "StringToNumber s =
     (let t = trim s
      in if t = [] then Fin 0
         else (case scan_nondecimal t of
                 Some v \<Rightarrow> v
               | None \<Rightarrow> (case scan_decimal t of Some (v, []) \<Rightarrow> v | _ \<Rightarrow> NaN)))"

section \<open>The comparator registry and the type classifier\<close>

text \<open>
  The five functions of \<open>jrSortTables.sort_functions\<close>, in the order the object literal
  declares them (the order \<open>for (i in sortFunctions)\<close> enumerates).
\<close>

datatype sortfn = AlphaNumeric | SortDate | SortDate_American | SortNumberJS | SortNumber_nonJS

definition sort_functions :: "(string \<times> sortfn) list" where
  "sort_functions =
     [(''alphaNumeric'', AlphaNumeric), (''sortDate'', SortDate),
      (''sortDate_American'', SortDate_American), (''sortNumberJS'', SortNumberJS),
      (''sortNumber_nonJS'', SortNumber_nonJS)]"

text \<open>
  \<open>rxFn = new RegExp(arr.join('|'))\<close>: an unanchored alternation of literal names (they hold
  letters and \<open>_\<close> only). \<open>rxFn.exec(className)\<close> finds the leftmost position where an
  alternative matches and, there, the first alternative in the order written; \<open>found[0]\<close> is
  that name.
\<close>

definition match_here :: "string list \<Rightarrow> string \<Rightarrow> string option" where
  "match_here alts s = find (\<lambda>a. take (length a) s = a) alts"

fun rx_exec :: "string list \<Rightarrow> string \<Rightarrow> string option" where
  "rx_exec alts [] = match_here alts []"
| "rx_exec alts (c # s) =
     (case match_here alts (c # s) of Some a \<Rightarrow> Some a | None \<Rightarrow> rx_exec alts s)"

text \<open>\<open>getSortFn\<close>: \<open>None\<close> is the empty string it returns when nothing is found.\<close>

definition getSortFn :: "string \<Rightarrow> sortfn option" where
  "getSortFn className =
     (case rx_exec (map fst sort_functions) className of
        None \<Rightarrow> None
      | Some found \<Rightarrow> map_of sort_functions found)"

definition guessDataType :: "string \<Rightarrow> sortfn" where
  "guessDataType txtCell =
     (if length txtCell > 0 then
        (if rx_test rx_number txtCell then SortNumberJS
         else
           (case rx_date txtCell of
              Some (g1, g2, g3) \<Rightarrow>
                (if parseInt10 g1 > 12 then SortDate
                 else if parseInt10 g2 > 12 then SortDate_American
                 else SortDate)
            | None \<Rightarrow> AlphaNumeric))
      else AlphaNumeric)"

section \<open>The comparators and their shared variables\<close>

text \<open>
  The comparators live in one closure with the variables \<open>aa, bb, tmpa, tmpb, date1, date2\<close>
  (\<open>let aa, bb, tmpa, tmpb, date1, date2;\<close>), which every call assigns and which keep their
  values between calls. A variable holds \<open>undefined\<close>, a string or a number.
\<close>

datatype jsval = JUndefined | JString string | JNumber jsnum

record closure =
  aa :: jsval
  bb :: jsval
  tmpa :: jsval
  tmpb :: jsval
  date1 :: jsval
  date2 :: jsval

text \<open>
  A call of a string method (\<open>search\<close>, \<open>substr\<close>, \<open>replace\<close>) on a value that is not a
  string throws a TypeError.
\<close>

datatype error = TypeError | NotPrepared

definition typeof :: "jsval \<Rightarrow> string" where
  "typeof v = (case v of JUndefined \<Rightarrow> ''undefined'' | JString s \<Rightarrow> ''string'' | JNumber n \<Rightarrow> ''number'')"

definition ToNumber :: "jsval \<Rightarrow> jsnum" where
  "ToNumber v = (case v of JUndefined \<Rightarrow> NaN | JString s \<Rightarrow> StringToNumber s | JNumber n \<Rightarrow> n)"

definition isNaN :: "jsval \<Rightarrow> bool" where
  "isNaN v = (ToNumber v = NaN)"

text \<open>\<open>x === y\<close> and \<open>x < y\<close> on values.\<close>

definition strict_eq :: "jsval \<Rightarrow> jsval \<Rightarrow> bool" where
  "strict_eq x y =
     (case (x, y) of
        (JUndefined, JUndefined) \<Rightarrow> True
      | (JString s, JString t) \<Rightarrow> s = t
      | (JNumber m, JNumber n) \<Rightarrow> m \<noteq> NaN \<and> m = n
      | _ \<Rightarrow> False)"

definition js_less :: "jsval \<Rightarrow> jsval \<Rightarrow> bool" where
  "js_less x y =
     (case (x, y) of
        (JString s, JString t) \<Rightarrow> s < t
      | _ \<Rightarrow> js_num_less (ToNumber x) (ToNumber y))"

text \<open>
  Lines 107 to 114 of the source, for the variable \<open>aa\<close> (and lines 116 to 120 for \<open>bb\<close>):
  the value assigned to \<open>tmpa\<close>, from the string \<open>aa\<close> holds. The assignment
  \<open>tmpa = parseFloat(aa)\<close> inside the condition is overwritten by the outer one before
  anything reads it. \<open>aa.search(...)\<close> throws when \<open>aa\<close> is not a string.
\<close>

definition key_class :: "string \<Rightarrow> jsval" where
  "key_class t =
     (if rx_test rx_leading_zero t then JString t
      else if length t > 0 then
        (let p = parseFloat t in if p = NaN then JString t else JNumber p)
      else JNumber (Fin 0))"

definition classify_key :: "jsval \<Rightarrow> error + jsval" where
  "classify_key v = (case v of JString t \<Rightarrow> Inr (key_class t) | _ \<Rightarrow> Inl TypeError)"

text \<open>
  Lines 122 to 129, the three returns of \<open>alphaNumeric\<close>: two strings by \<open>localeCompare\<close>,
  two numbers by their difference, and otherwise by the names of the types.
  \<open>localeCompare\<close> follows the host's locale; it is the parameter \<open>lc\<close>, which returns a
  negative, zero or positive integer.
\<close>

fun compare_classified :: "(string \<Rightarrow> string \<Rightarrow> int) \<Rightarrow> jsval \<Rightarrow> jsval \<Rightarrow> jsnum" where
  "compare_classified lc (JString x) (JString y) = js_int (lc x y)"
| "compare_classified lc (JNumber x) (JNumber y) = js_sub x y"
| "compare_classified lc x y = (if typeof x < typeof y then js_int (- 1) else js_int 1)"

text \<open>\<open>alphaNumeric\<close>. \<open>a\<close> and \<open>b\<close> are the pairs \<open>[cell text, row]\<close>.\<close>

definition alphaNumeric ::
  "(string \<Rightarrow> string \<Rightarrow> int) \<Rightarrow> closure \<Rightarrow> string \<times> 'r \<Rightarrow> string \<times> 'r \<Rightarrow> error + jsnum \<times> closure"
where
  "alphaNumeric lc s a b =
     (let s1 = s\<lparr>aa := JString (fst a)\<rparr>;
          s2 = s1\<lparr>bb := JString (fst b)\<rparr>
      in case classify_key (aa s2) of
           Inl e \<Rightarrow> Inl e
         | Inr ta \<Rightarrow>
             (let s3 = s2\<lparr>tmpa := ta\<rparr>
              in case classify_key (bb s3) of
                   Inl e \<Rightarrow> Inl e
                 | Inr tb \<Rightarrow>
                     (let s4 = s3\<lparr>tmpb := tb\<rparr>
                      in Inr (compare_classified lc (tmpa s4) (tmpb s4), s4))))"

text \<open>\<open>aa.substr(6, 4) + aa.substr(3, 2) + aa.substr(0, 2)\<close>: dd-mm-yyyy into yyyymmdd.\<close>

definition key_ddmmyyyy :: "jsval \<Rightarrow> error + string" where
  "key_ddmmyyyy v =
     (case v of JString t \<Rightarrow> Inr (substr t 6 4 @ substr t 3 2 @ substr t 0 2)
      | _ \<Rightarrow> Inl TypeError)"

text \<open>\<open>aa.substr(6, 4) + aa.substr(0, 2) + aa.substr(3, 2)\<close>: mm-dd-yyyy into yyyymmdd.\<close>

definition key_mmddyyyy :: "jsval \<Rightarrow> error + string" where
  "key_mmddyyyy v =
     (case v of JString t \<Rightarrow> Inr (substr t 6 4 @ substr t 0 2 @ substr t 3 2)
      | _ \<Rightarrow> Inl TypeError)"

text \<open>The last three lines of both date comparators.\<close>

definition compare_dates :: "closure \<Rightarrow> jsnum" where
  "compare_dates s =
     (if strict_eq (date1 s) (date2 s) then js_int 0
      else if js_less (date1 s) (date2 s) then js_int (- 1)
      else js_int 1)"

definition sortDate :: "closure \<Rightarrow> string \<times> 'r \<Rightarrow> string \<times> 'r \<Rightarrow> error + jsnum \<times> closure" where
  "sortDate s a b =
     (let s1 = s\<lparr>aa := JString (fst a)\<rparr>;
          s2 = s1\<lparr>bb := JString (fst b)\<rparr>
      in case key_ddmmyyyy (aa s2) of
           Inl e \<Rightarrow> Inl e
         | Inr d1 \<Rightarrow>
             (let s3 = s2\<lparr>date1 := JString d1\<rparr>
              in case key_ddmmyyyy (bb s3) of
                   Inl e \<Rightarrow> Inl e
                 | Inr d2 \<Rightarrow>
                     (let s4 = s3\<lparr>date2 := JString d2\<rparr> in Inr (compare_dates s4, s4))))"

definition sortDate_American ::
  "closure \<Rightarrow> string \<times> 'r \<Rightarrow> string \<times> 'r \<Rightarrow> error + jsnum \<times> closure"
where
  "sortDate_American s a b =
     (let s1 = s\<lparr>aa := JString (fst a)\<rparr>;
          s2 = s1\<lparr>bb := JString (fst b)\<rparr>
      in case key_mmddyyyy (aa s2) of
           Inl e \<Rightarrow> Inl e
         | Inr d1 \<Rightarrow>
             (let s3 = s2\<lparr>date1 := JString d1\<rparr>
              in case key_mmddyyyy (bb s3) of
                   Inl e \<Rightarrow> Inl e
                 | Inr d2 \<Rightarrow>
                     (let s4 = s3\<lparr>date2 := JString d2\<rparr> in Inr (compare_dates s4, s4))))"

text \<open>
  \<open>.replace(/[^\d.-]+/g, '')\<close> keeps the characters of the class; \<open>.replace(/,/g, '')\<close> and
  \<open>.replace(/\./g, '')\<close> drop every comma or period; \<open>.replace(/,/, '.')\<close> turns the first
  comma into a period.
\<close>

definition keep_chars :: "string \<Rightarrow> string \<Rightarrow> string" where
  "keep_chars cs t = filter (\<lambda>c. c \<in> set cs) t"

definition drop_char :: "char \<Rightarrow> string \<Rightarrow> string" where
  "drop_char c t = filter (\<lambda>x. x \<noteq> c) t"

definition comma_to_period :: "jsval \<Rightarrow> error + string" where
  "comma_to_period v =
     (case v of
        JString t \<Rightarrow>
          Inr (takeWhile (\<lambda>c. c \<noteq> CHR '','') t @
               (case dropWhile (\<lambda>c. c \<noteq> CHR '','') t of [] \<Rightarrow> [] | c # r \<Rightarrow> CHR ''.'' # r))
      | _ \<Rightarrow> Inl TypeError)"

text \<open>The last three lines of both numeric comparators.\<close>

definition compare_numbers :: "closure \<Rightarrow> jsnum \<times> closure" where
  "compare_numbers s =
     (let s1 = (if isNaN (aa s) then s\<lparr>aa := JNumber (Fin 0)\<rparr> else s);
          s2 = (if isNaN (bb s1) then s1\<lparr>bb := JNumber (Fin 0)\<rparr> else s1)
      in (js_sub (ToNumber (aa s2)) (ToNumber (bb s2)), s2))"

definition sortNumberJS ::
  "closure \<Rightarrow> string \<times> 'r \<Rightarrow> string \<times> 'r \<Rightarrow> error + jsnum \<times> closure"
where
  "sortNumberJS s a b =
     (let s1 = s\<lparr>aa := JString (drop_char CHR '','' (keep_chars (digits @ ''.-'') (fst a)))\<rparr>;
          s2 = s1\<lparr>bb := JString (drop_char CHR '','' (keep_chars (digits @ ''.-'') (fst b)))\<rparr>
      in Inr (compare_numbers s2))"

definition sortNumber_nonJS ::
  "closure \<Rightarrow> string \<times> 'r \<Rightarrow> string \<times> 'r \<Rightarrow> error + jsnum \<times> closure"
where
  "sortNumber_nonJS s a b =
     (let s1 = s\<lparr>aa := JString (drop_char CHR ''.'' (keep_chars (digits @ '',-'') (fst a)))\<rparr>;
          s2 = s1\<lparr>bb := JString (drop_char CHR ''.'' (keep_chars (digits @ '',-'') (fst b)))\<rparr>
      in case comma_to_period (aa s2) of
           Inl e \<Rightarrow> Inl e
         | Inr x \<Rightarrow>
             (let s3 = s2\<lparr>aa := JString x\<rparr>
              in case comma_to_period (bb s3) of
                   Inl e \<Rightarrow> Inl e
                 | Inr y \<Rightarrow> Inr (compare_numbers (s3\<lparr>bb := JString y\<rparr>))))"

text \<open>Calling the function a header cell holds in \<open>sortfn\<close>.\<close>

definition call ::
  "(string \<Rightarrow> string \<Rightarrow> int) \<Rightarrow> sortfn \<Rightarrow> closure \<Rightarrow> string \<times> 'r \<Rightarrow> string \<times> 'r \<Rightarrow>
     error + jsnum \<times> closure"
where
  "call lc f s a b =
     (case f of
        AlphaNumeric \<Rightarrow> alphaNumeric lc s a b
      | SortDate \<Rightarrow> sortDate s a b
      | SortDate_American \<Rightarrow> sortDate_American s a b
      | SortNumberJS \<Rightarrow> sortNumberJS s a b
      | SortNumber_nonJS \<Rightarrow> sortNumber_nonJS s a b)"

text \<open>
  The value a call returns, for the keys alone (read off a call from the initial variables),
  and the order the sort primitive reads from it: \<open>x\<close> may stand before \<open>y\<close> unless the
  comparator's result is positive.
\<close>

definition closure0 :: closure where
  "closure0 = \<lparr>aa = JUndefined, bb = JUndefined, tmpa = JUndefined, tmpb = JUndefined,
     date1 = JUndefined, date2 = JUndefined\<rparr>"

definition compare_keys :: "(string \<Rightarrow> string \<Rightarrow> int) \<Rightarrow> sortfn \<Rightarrow> string \<Rightarrow> string \<Rightarrow> jsnum" where
  "compare_keys lc f x y =
     (case call lc f closure0 (x, ()) (y, ()) of Inl e \<Rightarrow> NaN | Inr (v, s) \<Rightarrow> v)"

definition sort_le :: "(string \<Rightarrow> string \<Rightarrow> int) \<Rightarrow> sortfn \<Rightarrow> string \<Rightarrow> string \<Rightarrow> bool" where
  "sort_le lc f x y = (sign_of (compare_keys lc f x y) \<noteq> Some Positive)"

text \<open>
  What the sort primitive asks of a comparator, here of the host's \<open>localeCompare\<close>: when
  \<open>x\<close> is after \<open>y\<close>, \<open>y\<close> is not after \<open>x\<close>; and not being after is transitive.
\<close>

definition consistent :: "(string \<Rightarrow> string \<Rightarrow> int) \<Rightarrow> bool" where
  "consistent lc =
     ((\<forall>x y. 0 < lc x y \<longrightarrow> lc y x \<le> 0) \<and>
      (\<forall>x y z. lc x y \<le> 0 \<and> lc y z \<le> 0 \<longrightarrow> lc x z \<le> 0))"

text \<open>The shared variables as a call leaves them.\<close>

definition vars_after ::
  "(string \<Rightarrow> string \<Rightarrow> int) \<Rightarrow> sortfn \<Rightarrow> closure \<Rightarrow> string \<times> 'r \<Rightarrow> string \<times> 'r \<Rightarrow> closure"
where
  "vars_after lc f s a b = (case call lc f s a b of Inl e \<Rightarrow> s | Inr (v, s') \<Rightarrow> s')"

text \<open>A sequence of calls, each on the variables the one before has left.\<close>

fun run_calls ::
  "(string \<Rightarrow> string \<Rightarrow> int) \<Rightarrow> closure \<Rightarrow> (sortfn \<times> (string \<times> 'r) \<times> (string \<times> 'r)) list \<Rightarrow> closure"
where
  "run_calls lc s [] = s"
| "run_calls lc s ((f, a, b) # cs) =
     (case call lc f s a b of Inl e \<Rightarrow> run_calls lc s cs | Inr (v, s') \<Rightarrow> run_calls lc s' cs)"

text \<open>
  The number a comparator reads from a key, where it reads one: \<open>alphaNumeric\<close> for a key it
  classifies as a number, the numeric comparators for every key (what is left of the key
  after the replacements, and 0 where that is not a number).
\<close>

definition zero_if_NaN :: "jsnum \<Rightarrow> jsnum" where
  "zero_if_NaN n = (if n = NaN then Fin 0 else n)"

definition stripJS :: "string \<Rightarrow> string" where
  "stripJS x = drop_char CHR '','' (keep_chars (digits @ ''.-'') x)"

definition strip_nonJS :: "string \<Rightarrow> string" where
  "strip_nonJS x =
     (let t = drop_char CHR ''.'' (keep_chars (digits @ '',-'') x)
      in takeWhile (\<lambda>c. c \<noteq> CHR '','') t @
         (case dropWhile (\<lambda>c. c \<noteq> CHR '','') t of [] \<Rightarrow> [] | c # r \<Rightarrow> CHR ''.'' # r))"

definition number_read :: "sortfn \<Rightarrow> string \<Rightarrow> jsnum option" where
  "number_read f x =
     (case f of
        AlphaNumeric \<Rightarrow> (case key_class x of JNumber n \<Rightarrow> Some n | _ \<Rightarrow> None)
      | SortDate \<Rightarrow> None
      | SortDate_American \<Rightarrow> None
      | SortNumberJS \<Rightarrow> Some (zero_if_NaN (StringToNumber (stripJS x)))
      | SortNumber_nonJS \<Rightarrow> Some (zero_if_NaN (StringToNumber (strip_nonJS x))))"

subsection \<open>The sort primitive\<close>

text \<open>
  \<open>Array.prototype.sort(comparefn)\<close> belongs to the host. It is taken as a stable sort (as the
  language requires since ECMAScript 2019), here insertion sort; it reads the comparator's
  result as the language's SortCompare does: only whether it is positive matters, and NaN
  counts as zero. An exception of the comparator ends the sort.
\<close>

fun insert_sorted ::
  "(closure \<Rightarrow> 'a \<Rightarrow> 'a \<Rightarrow> error + jsnum \<times> closure) \<Rightarrow> 'a \<Rightarrow> 'a list \<Rightarrow> closure \<Rightarrow>
     error + 'a list \<times> closure"
where
  "insert_sorted cmp x [] s = Inr ([x], s)"
| "insert_sorted cmp x (y # ys) s =
     (case cmp s x y of
        Inl e \<Rightarrow> Inl e
      | Inr (v, s') \<Rightarrow>
          (if sign_of v = Some Positive then
             (case insert_sorted cmp x ys s' of
                Inl e \<Rightarrow> Inl e
              | Inr (zs, s'') \<Rightarrow> Inr (y # zs, s''))
           else Inr (x # y # ys, s')))"

fun array_sort ::
  "(closure \<Rightarrow> 'a \<Rightarrow> 'a \<Rightarrow> error + jsnum \<times> closure) \<Rightarrow> 'a list \<Rightarrow> closure \<Rightarrow>
     error + 'a list \<times> closure"
where
  "array_sort cmp [] s = Inr ([], s)"
| "array_sort cmp (x # xs) s =
     (case array_sort cmp xs s of
        Inl e \<Rightarrow> Inl e
      | Inr (zs, s') \<Rightarrow> insert_sorted cmp x zs s')"

section \<open>The page: tables, header cells and the sort state\<close>

text \<open>
  Elements of the document are nodes. The state holds what the code reads and writes:
  \<open>jrSortTables.tableProp\<close>; the properties \<open>sortfn\<close>, \<open>sortdir\<close>, \<open>isSorted\<close> and
  \<open>currentSortedTBody\<close> the code attaches to header cells; for every \<open>tbody\<close> its rows in
  order; for every row the \<open>textContent\<close> of its cells; \<open>className\<close> and \<open>cellIndex\<close> of a
  header cell; the arrow \<open>span\<close> of each id (the header cell that holds it and its arrow);
  the \<open>onclick\<close> handler of a header cell (the \<open>tblNumber\<close> its closure holds); and the
  comparators' shared variables.
\<close>

type_synonym node = nat

text \<open>The value of a \<open>tblNumber\<close> parameter: \<open>undefined\<close> when the argument is left out.\<close>

datatype tblnum = Undefined | Index nat

datatype direction = Up | Down

record header =
  sortfn :: sortfn
  sortdir :: direction
  isSorted :: bool
  currentSortedTBody :: "(string \<times> node) list option"

record table_prop =
  headerCells :: "node list"
  spanArrowId :: string
  tbody :: "node option"

record page =
  tableProp :: "tblnum \<rightharpoonup> table_prop"
  th_props :: "node \<rightharpoonup> header"
  rows :: "node \<Rightarrow> node list"
  cells :: "node \<Rightarrow> string list"
  className :: "node \<Rightarrow> string"
  cellIndex :: "node \<Rightarrow> nat"
  arrow :: "string \<rightharpoonup> node \<times> direction"
  onclick :: "node \<rightharpoonup> tblnum"
  vars :: closure

text \<open>
  A table element as \<open>prepareTables\<close> reads it: the cells of the first row of \<open>tHead\<close> and of
  \<open>tFoot\<close>, and \<open>tBodies[0]\<close> (\<open>None\<close> when the table has no body).
\<close>

datatype first_row = Absent | NoRows | FirstRow "node list"

record table =
  tHead :: first_row
  tBody :: "node option"
  tFoot :: first_row

subsection \<open>Moving rows\<close>

text \<open>
  \<open>fragment.appendChild(row)\<close> takes the row out of the parent it has (a \<open>tbody\<close> or the
  fragment itself) and puts it last in the fragment; \<open>tbody.appendChild(fragment)\<close> puts the
  fragment's children, in order, after the rows the \<open>tbody\<close> still has.
\<close>

definition appendChild ::
  "(node \<Rightarrow> node list) \<times> node list \<Rightarrow> node \<Rightarrow> (node \<Rightarrow> node list) \<times> node list"
where
  "appendChild rf row = ((\<lambda>t. removeAll row (fst rf t)), removeAll row (snd rf) @ [row])"

definition appendFragment ::
  "(node \<Rightarrow> node list) \<Rightarrow> node \<Rightarrow> node list \<Rightarrow> (node \<Rightarrow> node list)"
where
  "appendFragment rs tb fragment = rs(tb := rs tb @ fragment)"

text \<open>The key of a row in a column: \<open>getElementText(row.cells[column])\<close>.\<close>

definition cell_text :: "page \<Rightarrow> nat \<Rightarrow> node \<Rightarrow> string" where
  "cell_text st column row = getElementText (cells st row ! column)"

text \<open>
  The rows of every \<open>tbody\<close> once the rows of a sequence have gone one by one into a new
  fragment, and the fragment into the body \<open>tb\<close>.
\<close>

definition moved :: "page \<Rightarrow> node \<Rightarrow> node list \<Rightarrow> node \<Rightarrow> node list" where
  "moved st tb fragment =
     appendFragment (fst (foldl appendChild (rows st, []) fragment)) tb
       (snd (foldl appendChild (rows st, []) fragment))"

subsection \<open>\<open>jrSortTables.sort\<close>\<close>

text \<open>The first loop of the unsorted branch: \<open>[getElementText(row.cells[column]), row]\<close>.\<close>

fun collect_keys :: "page \<Rightarrow> nat \<Rightarrow> node list \<Rightarrow> error + (string \<times> node) list" where
  "collect_keys st column [] = Inr []"
| "collect_keys st column (row # tbr) =
     (if column < length (cells st row) then
        (case collect_keys st column tbr of
           Inl e \<Rightarrow> Inl e
         | Inr ks \<Rightarrow> Inr ((getElementText (cells st row ! column), row) # ks))
      else Inl TypeError)"

text \<open>
  Lines 82 to 96: the fragment goes into the \<open>tbody\<close>, the arrow \<open>span\<close> of the table's id is
  taken out of the header cell that holds it and a new one put into \<open>th\<close>, and the header
  cell gets \<open>currentSortedTBody\<close> and \<open>sortdir\<close>.
\<close>

definition finish_sort ::
  "page \<Rightarrow> table_prop \<Rightarrow> node \<Rightarrow> node \<Rightarrow> header \<Rightarrow> direction \<Rightarrow> (string \<times> node) list \<Rightarrow>
     (node \<Rightarrow> node list) \<times> node list \<Rightarrow> error + page"
where
  "finish_sort st p th hc h sort_direction cur rf =
     (case tbody p of
        None \<Rightarrow> Inl TypeError
      | Some tb \<Rightarrow>
          Inr (st\<lparr>rows := appendFragment (fst rf) tb (snd rf),
                  arrow := (arrow st)(spanArrowId p \<mapsto> (th, sort_direction)),
                  th_props := (th_props st)
                    (hc \<mapsto> h\<lparr>currentSortedTBody := Some cur, sortdir := sort_direction\<rparr>)\<rparr>))"

text \<open>
  \<open>jrSortTables.sort(tblNumber, th)\<close>. A header cell without the sort properties
  (\<open>NotPrepared\<close>) is outside the model: \<open>headerCells\<close> only ever holds cells \<open>setup\<close> has
  prepared.
\<close>

definition jrSortTables_sort ::
  "(string \<Rightarrow> string \<Rightarrow> int) \<Rightarrow> page \<Rightarrow> tblnum \<Rightarrow> node \<Rightarrow> error + page"
where
  "jrSortTables_sort lc st tblNumber th =
     (let column = cellIndex st th
      in case tableProp st tblNumber of
           None \<Rightarrow> Inl TypeError
         | Some p \<Rightarrow>
             (if column < length (headerCells p) then
                (let hc = headerCells p ! column
                 in case th_props st hc of
                      None \<Rightarrow> Inl NotPrepared
                    | Some h \<Rightarrow>
                        (if isSorted h then
                           (let sort_direction = (if sortdir h = Up then Down else Up)
                            in case currentSortedTBody h of
                                 None \<Rightarrow> Inl TypeError
                               | Some cur \<Rightarrow>
                                   finish_sort st p th hc h sort_direction cur
                                     (if sort_direction = Up
                                      then foldl appendChild (rows st, []) (map snd cur)
                                      else foldl appendChild (rows st, []) (rev (map snd cur))))
                         else
                           (case tbody p of
                              None \<Rightarrow> Inl TypeError
                            | Some tb \<Rightarrow>
                                (case collect_keys st column (rows st tb) of
                                   Inl e \<Rightarrow> Inl e
                                 | Inr keys \<Rightarrow>
                                     (case array_sort (call lc (sortfn h)) keys (vars st) of
                                        Inl e \<Rightarrow> Inl e
                                      | Inr (cur, vs) \<Rightarrow>
                                          finish_sort (st\<lparr>vars := vs\<rparr>) p th hc
                                            (h\<lparr>isSorted := True\<rparr>) (sortdir h) cur
                                            (foldl appendChild (rows st, []) (map snd cur)))))))
              else Inl TypeError))"

subsection \<open>\<open>jrSortTables.setup\<close>\<close>

text \<open>\<open>"jrSortSpan" + tblNumber\<close>.\<close>

fun decimal :: "nat \<Rightarrow> string" where
  "decimal n = (if n < 10 then [digits ! n] else decimal (n div 10) @ [digits ! (n mod 10)])"

definition span_id :: "tblnum \<Rightarrow> string" where
  "span_id n = ''jrSortSpan'' @ (case n of Undefined \<Rightarrow> ''undefined'' | Index i \<Rightarrow> decimal i)"

text \<open>
  The loop of lines 251 to 258 from index \<open>i\<close> on, over the header cells left. The type is
  guessed from the first body row only when the class names no sort function; without a
  body, a first row or an \<open>i\<close>-th cell in it, that throws.
\<close>

fun prepare_cells :: "page \<Rightarrow> table \<Rightarrow> nat \<Rightarrow> node list \<Rightarrow> error + page" where
  "prepare_cells st tableElem i [] = Inr st"
| "prepare_cells st tableElem i (th # ths) =
     (case (case getSortFn (className st th) of
              Some fn \<Rightarrow> Inr fn
            | None \<Rightarrow>
                (case tBody tableElem of
                   None \<Rightarrow> Inl TypeError
                 | Some tb \<Rightarrow>
                     (case rows st tb of
                        [] \<Rightarrow> Inl TypeError
                      | row0 # _ \<Rightarrow>
                          (if i < length (cells st row0)
                           then Inr (guessDataType (getElementText (cells st row0 ! i)))
                           else Inl TypeError))))
      of Inl e \<Rightarrow> Inl e
       | Inr fn \<Rightarrow>
           prepare_cells
             (st\<lparr>th_props := (th_props st)
                   (th \<mapsto> \<lparr>sortfn = fn, sortdir = Up, isSorted = False,
                          currentSortedTBody =
                            (case th_props st th of None \<Rightarrow> None
                             | Some h \<Rightarrow> currentSortedTBody h)\<rparr>)\<rparr>)
             tableElem (Suc i) ths)"

text \<open>\<open>addEvent(row)\<close>: every cell of the row gets the handler, which holds \<open>tblNumber\<close>.\<close>

definition addEvent :: "page \<Rightarrow> tblnum \<Rightarrow> node list \<Rightarrow> page" where
  "addEvent st tblNumber cs = st\<lparr>onclick := (\<lambda>c. if c \<in> set cs then Some tblNumber else onclick st c)\<rparr>"

definition prepareTables :: "page \<Rightarrow> table \<Rightarrow> tblnum \<Rightarrow> error + page" where
  "prepareTables st tableElem tblNumber =
     (let st1 = st\<lparr>tableProp := (tableProp st)
                  (tblNumber \<mapsto> \<lparr>headerCells = [], spanArrowId = span_id tblNumber,
                                 tbody = tBody tableElem\<rparr>)\<rparr>
      in case tHead tableElem of
           Absent \<Rightarrow> Inl TypeError
         | NoRows \<Rightarrow> Inl TypeError
         | FirstRow arrTh \<Rightarrow>
             (case prepare_cells st1 tableElem 0 arrTh of
                Inl e \<Rightarrow> Inl e
              | Inr st2 \<Rightarrow>
                  (let st3 = st2\<lparr>tableProp := (tableProp st2)
                               (tblNumber \<mapsto> \<lparr>headerCells = arrTh, spanArrowId = span_id tblNumber,
                                              tbody = tBody tableElem\<rparr>)\<rparr>;
                       st4 = addEvent st3 tblNumber arrTh
                   in case tFoot tableElem of
                        Absent \<Rightarrow> Inr st4
                      | NoRows \<Rightarrow> Inl TypeError
                      | FirstRow cs \<Rightarrow> Inr (addEvent st4 tblNumber cs))))"

text \<open>
  \<open>setup\<close>: \<open>tables\<close> are the elements of class \<open>sortable\<close> in document order, and each is
  prepared by \<open>prepareTables(tbl)\<close>, with one argument.
\<close>

fun jrSortTables_setup :: "page \<Rightarrow> table list \<Rightarrow> error + page" where
  "jrSortTables_setup st [] = Inr st"
| "jrSortTables_setup st (tbl # tables) =
     (case prepareTables st tbl Undefined of
        Inl e \<Rightarrow> Inl e
      | Inr st' \<Rightarrow> jrSortTables_setup st' tables)"

text \<open>The sort properties of a header cell as \<open>setup\<close> leaves them: not sorted, direction up.\<close>

definition fresh :: "header option \<Rightarrow> bool" where
  "fresh ho = (case ho of None \<Rightarrow> False | Some h \<Rightarrow> \<not> isSorted h \<and> sortdir h = Up)"

text \<open>
  A column that has been sorted: its header cell is marked sorted and holds a cached
  sequence, whose rows are distinct and are the rows the body \<open>tb\<close> holds.
\<close>

definition sorted_column :: "page \<Rightarrow> node \<Rightarrow> node \<Rightarrow> bool" where
  "sorted_column st tb hc =
     (case th_props st hc of
        None \<Rightarrow> False
      | Some h \<Rightarrow>
          isSorted h \<and>
          (case currentSortedTBody h of
             None \<Rightarrow> False
           | Some cur \<Rightarrow> distinct (map snd cur) \<and> mset (rows st tb) = mset (map snd cur)))"

text \<open>A click on a header cell runs its handler: \<open>jrSortTables.sort(tblNumber, this)\<close>.\<close>

definition click :: "(string \<Rightarrow> string \<Rightarrow> int) \<Rightarrow> page \<Rightarrow> node \<Rightarrow> error + page" where
  "click lc st th =
     (case onclick st th of None \<Rightarrow> Inr st | Some tblNumber \<Rightarrow> jrSortTables_sort lc st tblNumber th)"

section \<open>Example pages\<close>

text \<open>A possible \<open>localeCompare\<close>: the order of the code units.\<close>

definition codeunit_compare :: "string \<Rightarrow> string \<Rightarrow> int" where
  "codeunit_compare x y = (if x < y then - 1 else if x = y then 0 else 1)"

text \<open>
  A page with one table: header cell 1 of class \<open>sortDate_American\<close>, body 2 with the single
  row 3, whose cell reads \<open>02/25/2023\<close>.
\<close>

definition american_page :: page where
  "american_page =
     \<lparr>tableProp = Map.empty, th_props = Map.empty,
      rows = (\<lambda>t. if t = 2 then [3] else []),
      cells = (\<lambda>r. if r = 3 then [''02/25/2023''] else []),
      className = (\<lambda>c. if c = 1 then ''sortDate_American'' else []),
      cellIndex = (\<lambda>c. 0), arrow = Map.empty, onclick = Map.empty, vars = closure0\<rparr>"

definition american_table :: table where
  "american_table = \<lparr>tHead = FirstRow [1], tBody = Some 2, tFoot = Absent\<rparr>"

text \<open>
  A page with one table of two columns, names and dates: header cells 1 and 2, body 10 with
  the rows 11, 12 and 13.
\<close>

definition names_page :: page where
  "names_page =
     \<lparr>tableProp = Map.empty, th_props = Map.empty,
      rows = (\<lambda>t. if t = 10 then [11, 12, 13] else []),
      cells = (\<lambda>r. if r = 11 then [''pear'', ''25/12/2023'']
                    else if r = 12 then [''apple'', ''01/01/2024'']
                    else if r = 13 then [''fig'', ''03/04/2023''] else []),
      className = (\<lambda>c. []),
      cellIndex = (\<lambda>c. if c = 2 then 1 else 0),
      arrow = Map.empty, onclick = Map.empty, vars = closure0\<rparr>"

definition names_table :: table where
  "names_table = \<lparr>tHead = FirstRow [1, 2], tBody = Some 10, tFoot = Absent\<rparr>"

text \<open>The page as \<open>setup\<close> leaves it.\<close>

definition names_prop :: table_prop where
  "names_prop = \<lparr>headerCells = [1, 2], spanArrowId = ''jrSortSpanundefined'', tbody = Some 10\<rparr>"

definition name_header :: header where
  "name_header =
     \<lparr>sortfn = AlphaNumeric, sortdir = Up, isSorted = False, currentSortedTBody = None\<rparr>"

definition date_header :: header where
  "date_header = \<lparr>sortfn = SortDate, sortdir = Up, isSorted = False, currentSortedTBody = None\<rparr>"

definition names_ready :: page where
  "names_ready =
     names_page\<lparr>tableProp := [Undefined \<mapsto> names_prop],
       th_props := [1 \<mapsto> name_header, 2 \<mapsto> date_header],
       onclick := (\<lambda>c. if c \<in> set [1, 2] then Some Undefined else None)\<rparr>"

text \<open>The page after a first click on header cell 2, the dates.\<close>

definition date_header_sorted :: header where
  "date_header_sorted =
     \<lparr>sortfn = SortDate, sortdir = Up, isSorted = True,
      currentSortedTBody =
        Some [(''03/04/2023'', 13), (''25/12/2023'', 11), (''01/01/2024'', 12)]\<rparr>"

definition names_sorted :: page where
  "names_sorted =
     names_ready\<lparr>vars := \<lparr>aa = JString ''25/12/2023'', bb = JString ''01/01/2024'',
                            tmpa = JUndefined, tmpb = JUndefined,
                            date1 = JString ''20231225'', date2 = JString ''20240101''\<rparr>,
       rows := (\<lambda>t. if t = 10 then [13, 11, 12] else []),
       arrow := [''jrSortSpanundefined'' \<mapsto> (2, Up)],
       th_props := [1 \<mapsto> name_header, 2 \<mapsto> date_header_sorted]\<rparr>"

text \<open>
  A page with two tables of one column: header cell 1 over body 10 (rows 11 and 12), and
  header cell 2 over body 20 (rows 21 and 22).
\<close>

definition two_tables_page :: page where
  "two_tables_page =
     \<lparr>tableProp = Map.empty, th_props = Map.empty,
      rows = (\<lambda>t. if t = 10 then [11, 12] else if t = 20 then [21, 22] else []),
      cells = (\<lambda>r. if r = 11 then [''b''] else if r = 12 then [''a'']
                    else if r = 21 then [''y''] else if r = 22 then [''x''] else []),
      className = (\<lambda>c. []),
      cellIndex = (\<lambda>c. 0),
      arrow = Map.empty, onclick = Map.empty, vars = closure0\<rparr>"

definition first_table :: table where
  "first_table = \<lparr>tHead = FirstRow [1], tBody = Some 10, tFoot = Absent\<rparr>"

definition second_table :: table where
  "second_table = \<lparr>tHead = FirstRow [2], tBody = Some 20, tFoot = Absent\<rparr>"

section \<open>Properties\<close>

subsection \<open>Numbers\<close>

lemma round_grid_not_NaN: "round_grid n d \<noteq> NaN"
  by (simp add: round_grid_def Let_def)

lemma number_value_not_NaN: "number_value p b e \<noteq> NaN"
  by (simp add: number_value_def round_grid_not_NaN)

lemma js_int_not_NaN: "js_int i \<noteq> NaN"
  by (simp add: js_int_def number_value_not_NaN)

lemma zero_if_NaN_not_NaN: "zero_if_NaN n \<noteq> NaN"
  by (simp add: zero_if_NaN_def)

lemma unit_scale_pos: "0 < unit_scale"
  by (simp add: unit_scale_def)

lemma overflow_bound_pos: "0 < overflow_bound"
  by (simp add: overflow_bound_def)

lemma pow2_le_of_bitlen:
  assumes "0 < (a::int)"
  shows "2 ^ nat (bitlen a - 53) \<le> a"
proof -
  have b: "2 ^ nat (bitlen a - 1) \<le> a"
    using bitlen_bounds[OF assms] by simp
  have "(2::int) ^ nat (bitlen a - 53) \<le> 2 ^ nat (bitlen a - 1)"
    by (rule power_increasing) auto
  with b show ?thesis by linarith
qed

text \<open>Rounding a positive number of units never gives zero: the smallest value is one unit.\<close>

lemma round_units_pos:
  assumes a: "0 < a"
  shows "0 < round_units a 1"
proof -
  define k where "k = nat (bitlen a - 53)"
  have "2 ^ k \<le> a"
    unfolding k_def by (rule pow2_le_of_bitlen[OF a])
  then have q: "0 < a div 2 ^ k"
    by (simp add: pos_imp_zdiv_pos_iff)
  have "round_units a 1 = a div 2 ^ k * 2 ^ k \<or> round_units a 1 = (a div 2 ^ k + 1) * 2 ^ k"
    unfolding round_units_def Let_def k_def by simp
  moreover have "0 < a div 2 ^ k * 2 ^ k"
    using q by simp
  moreover have "0 < (a div 2 ^ k + 1) * 2 ^ k"
    using q by simp
  ultimately show ?thesis by presburger
qed

lemma round_units_zero: "round_units 0 1 = 0"
  by (simp add: round_units_def)

lemma round_grid_sign:
  "sign_of (round_grid n 1) = Some (if n < 0 then Negative else if n = 0 then Zero else Positive)"
proof (cases "n = 0")
  case True
  then show ?thesis
    using overflow_bound_pos by (simp add: round_grid_def round_units_zero)
next
  case False
  define m where "m = round_units \<bar>n\<bar> 1"
  have m: "0 < m"
    unfolding m_def using False by (intro round_units_pos) simp
  have "round_grid n 1 =
      (if m \<ge> overflow_bound then (if n < 0 then NegInf else PosInf)
       else Fin (if n < 0 then - m else m))"
    unfolding m_def round_grid_def Let_def ..
  then show ?thesis
    using False m by simp
qed

lemma js_int_sign:
  "sign_of (js_int i) = Some (if i < 0 then Negative else if i = 0 then Zero else Positive)"
  using unit_scale_pos
  by (simp add: js_int_def number_value_def round_grid_sign mult_less_0_iff not_less [symmetric])

lemma js_sub_NaN_iff:
  "js_sub x y = NaN \<longleftrightarrow>
     x = NaN \<or> y = NaN \<or> (x = PosInf \<and> y = PosInf) \<or> (x = NegInf \<and> y = NegInf)"
  by (cases x; cases y) (simp_all add: round_grid_not_NaN)

lemma sign_of_None_iff: "sign_of v = None \<longleftrightarrow> v = NaN"
  by (cases v) simp_all

lemma scan_decimal_not_NaN: "scan_decimal t = Some (v, r) \<Longrightarrow> v \<noteq> NaN"
  by (auto simp: scan_decimal_def Let_def number_value_not_NaN
      split: option.splits if_splits prod.splits)

lemma parseFloat_5: "parseFloat ''5'' = number_value 5 10 0"
  by (simp add: parseFloat_def scan_decimal_def scan_unsigned_def scan_exponent_def is_space_def
      white_space_def is_digit_def digits_def parseInt10_def digit_val_def Let_def)


lemma number_value_5: "number_value 5 10 0 = Fin (5 * unit_scale)"
  by code_simp

subsection \<open>Matching\<close>

lemma rx_test_Alt: "rx_test (Alt r s) w = (rx_test r w \<or> rx_test s w)"
  by (induction w arbitrary: r s) simp_all

lemma rx_test_Seq_Empty: "\<not> rx_test (Seq Empty r) w"
  by (induction w) simp_all

lemma rx_test_Seq_Eps: "rx_test (Seq Eps r) w = rx_test r w"
  by (cases w) (simp_all add: rx_test_Alt rx_test_Seq_Empty)

lemma rx_test_Star_NCls: "set w \<inter> set cs = {} \<Longrightarrow> rx_test (Star (NCls cs)) w"
  by (induction w) (simp_all add: rx_test_Seq_Eps)

text \<open>\<open>/^0+.*$/\<close> matches every string that starts with \<open>0\<close> and has no line terminator.\<close>

lemma rx_leading_zero_matches:
  assumes "x \<noteq> []" "hd x = CHR ''0''" "set x \<inter> set line_terminators = {}"
  shows "rx_test rx_leading_zero x"
proof -
  from assms obtain w where x: "x = CHR ''0'' # w"
    by (cases x) auto
  with assms have w: "set w \<inter> set line_terminators = {}"
    by auto
  have "rx_test (Seq (Seq Eps (Star (Cls ''0''))) (Star (NCls line_terminators))) w"
  proof (cases w)
    case Nil
    then show ?thesis by simp
  next
    case (Cons c v)
    with w have "rx_test (Star (NCls line_terminators)) (c # v)"
      by (intro rx_test_Star_NCls) simp
    then show ?thesis
      using Cons by (simp add: rx_test_Alt)
  qed
  then show ?thesis
    by (simp add: x rx_leading_zero_def Plus_def)
qed

subsection \<open>What the comparators return\<close>

lemma key_class_cases:
  "(\<exists>t. key_class x = JString t \<and> t = x) \<or> (\<exists>n. key_class x = JNumber n \<and> n \<noteq> NaN)"
  by (auto simp: key_class_def Let_def parseFloat_def dest: scan_decimal_not_NaN
      split: option.splits)

lemma key_class_leading_zero: "rx_test rx_leading_zero x \<Longrightarrow> key_class x = JString x"
  by (simp add: key_class_def)

lemma key_class_empty: "key_class [] = JNumber (Fin 0)"
  by (simp add: key_class_def rx_leading_zero_def Plus_def)


lemma key_class_5: "key_class ''5'' = JNumber (number_value 5 10 0)"
  by (simp add: key_class_def rx_leading_zero_def Plus_def parseFloat_5 number_value_not_NaN)


lemma typeof_number_string:
  "typeof (JNumber n) < typeof (JString t)" "\<not> typeof (JString t) < typeof (JNumber n)"
  by (simp_all add: typeof_def)

text \<open>
  Each comparator assigns the variables it reads before it reads them, so its result is a
  function of the two keys, and no call fails.
\<close>

lemma alphaNumeric_result:
  "alphaNumeric lc s a b =
     Inr (compare_classified lc (key_class (fst a)) (key_class (fst b)),
          s\<lparr>aa := JString (fst a), bb := JString (fst b),
            tmpa := key_class (fst a), tmpb := key_class (fst b)\<rparr>)"
  by (simp add: alphaNumeric_def classify_key_def Let_def)

lemma sortDate_result:
  "sortDate s a b =
     (let d1 = substr (fst a) 6 4 @ substr (fst a) 3 2 @ substr (fst a) 0 2;
          d2 = substr (fst b) 6 4 @ substr (fst b) 3 2 @ substr (fst b) 0 2
      in Inr (if d1 = d2 then js_int 0 else if d1 < d2 then js_int (- 1) else js_int 1,
              s\<lparr>aa := JString (fst a), bb := JString (fst b),
                date1 := JString d1, date2 := JString d2\<rparr>))"
  by (simp add: sortDate_def key_ddmmyyyy_def compare_dates_def strict_eq_def js_less_def Let_def)

lemma sortDate_American_result:
  "sortDate_American s a b =
     (let d1 = substr (fst a) 6 4 @ substr (fst a) 0 2 @ substr (fst a) 3 2;
          d2 = substr (fst b) 6 4 @ substr (fst b) 0 2 @ substr (fst b) 3 2
      in Inr (if d1 = d2 then js_int 0 else if d1 < d2 then js_int (- 1) else js_int 1,
              s\<lparr>aa := JString (fst a), bb := JString (fst b),
                date1 := JString d1, date2 := JString d2\<rparr>))"
  by (simp add: sortDate_American_def key_mmddyyyy_def compare_dates_def strict_eq_def
      js_less_def Let_def)

lemma sortNumberJS_result:
  "\<exists>s'. sortNumberJS s a b =
     Inr (js_sub (zero_if_NaN (StringToNumber (stripJS (fst a))))
                 (zero_if_NaN (StringToNumber (stripJS (fst b)))), s')"
  by (simp add: sortNumberJS_def stripJS_def compare_numbers_def isNaN_def ToNumber_def
      zero_if_NaN_def Let_def)

lemma sortNumber_nonJS_result:
  "\<exists>s'. sortNumber_nonJS s a b =
     Inr (js_sub (zero_if_NaN (StringToNumber (strip_nonJS (fst a))))
                 (zero_if_NaN (StringToNumber (strip_nonJS (fst b)))), s')"
  by (simp add: sortNumber_nonJS_def strip_nonJS_def comma_to_period_def compare_numbers_def
      isNaN_def ToNumber_def zero_if_NaN_def Let_def)

lemma call_deterministic:
  "map_sum id fst (call lc f s (x, r1) (y, r2)) = map_sum id fst (call lc f s' (x, r1') (y, r2'))"
proof (cases f)
  case SortNumberJS
  then show ?thesis
    using sortNumberJS_result[of s "(x, r1)" "(y, r2)"]
      sortNumberJS_result[of s' "(x, r1')" "(y, r2')"]
    by (auto simp: call_def)
next
  case SortNumber_nonJS
  then show ?thesis
    using sortNumber_nonJS_result[of s "(x, r1)" "(y, r2)"]
      sortNumber_nonJS_result[of s' "(x, r1')" "(y, r2')"]
    by (auto simp: call_def)
qed (simp_all add: call_def alphaNumeric_result sortDate_result sortDate_American_result Let_def)

lemma call_total: "\<exists>v s'. call lc f s a b = Inr (v, s')"
proof (cases f)
  case SortNumberJS
  then show ?thesis
    using sortNumberJS_result[of s a b] by (auto simp: call_def)
next
  case SortNumber_nonJS
  then show ?thesis
    using sortNumber_nonJS_result[of s a b] by (auto simp: call_def)
qed (simp_all add: call_def alphaNumeric_result sortDate_result sortDate_American_result Let_def)

lemma call_compare_keys: "\<exists>s'. call lc f s a b = Inr (compare_keys lc f (fst a) (fst b), s')"
proof -
  obtain v s' where c: "call lc f s a b = Inr (v, s')"
    using call_total by blast
  obtain v0 s0 where c0: "call lc f closure0 (fst a, ()) (fst b, ()) = Inr (v0, s0)"
    using call_total by blast
  have "map_sum id fst (call lc f s (fst a, snd a) (fst b, snd b)) =
      map_sum id fst (call lc f closure0 (fst a, ()) (fst b, ()))"
    by (rule call_deterministic)
  with c c0 have "v = v0" by simp
  with c c0 show ?thesis by (simp add: compare_keys_def)
qed

text \<open>
  C10. The result of a call is the same from any two states of the shared variables, in
  particular from the state any sequence of earlier calls has left and from any other, and
  whatever the rows are: it is a function of the two keys, the one \<open>compare_keys\<close> reads off
  a call from the initial variables.
\<close>

theorem comparator_result_depends_on_keys_only:
  "map_sum id fst (call lc f (run_calls lc s cs) (x, r1) (y, r2)) =
     map_sum id fst (call lc f s' (x, r1') (y, r2')) \<and>
   map_sum id fst (call lc f s (x, r1) (y, r2)) = Inr (compare_keys lc f x y)"
proof
  show "map_sum id fst (call lc f (run_calls lc s cs) (x, r1) (y, r2)) =
     map_sum id fst (call lc f s' (x, r1') (y, r2'))"
    by (rule call_deterministic)
  show "map_sum id fst (call lc f s (x, r1) (y, r2)) = Inr (compare_keys lc f x y)"
    using call_compare_keys[of lc f s "(x, r1)" "(y, r2)"] by auto
qed

text \<open>
  C4, as the code has it. No call fails, and every call returns a number. The number is
  negative, zero or positive except in one case, where it is NaN: both keys read as the same
  infinity (under \<open>alphaNumeric\<close>, say, both keys are \<open>Infinity\<close>).
\<close>

theorem comparator_total_sign_or_same_infinity:
  "\<exists>v s'. call lc f s a b = Inr (v, s') \<and>
     (sign_of v = None) =
       (number_read f (fst a) = number_read f (fst b) \<and>
        number_read f (fst a) \<in> {Some PosInf, Some NegInf})"
proof (cases f)
  case AlphaNumeric
  show ?thesis
    using key_class_cases[of "fst a"] key_class_cases[of "fst b"]
    by (auto simp: AlphaNumeric call_def alphaNumeric_result number_read_def sign_of_None_iff
        js_int_not_NaN js_sub_NaN_iff typeof_number_string)
next
  case SortDate
  then show ?thesis
    by (simp add: call_def sortDate_result number_read_def sign_of_None_iff js_int_not_NaN
        Let_def)
next
  case SortDate_American
  then show ?thesis
    by (simp add: call_def sortDate_American_result number_read_def sign_of_None_iff
        js_int_not_NaN Let_def)
next
  case SortNumberJS
  then show ?thesis
    using sortNumberJS_result[of s a b]
    by (auto simp: call_def number_read_def sign_of_None_iff js_sub_NaN_iff zero_if_NaN_not_NaN)
next
  case SortNumber_nonJS
  then show ?thesis
    using sortNumber_nonJS_result[of s a b]
    by (auto simp: call_def number_read_def sign_of_None_iff js_sub_NaN_iff zero_if_NaN_not_NaN)
qed

text \<open>
  C4, as stated, fails: \<open>alphaNumeric\<close> on the keys \<open>Infinity\<close> and \<open>Infinity\<close> returns
  \<open>Infinity - Infinity\<close>, which is NaN.
\<close>

theorem alphaNumeric_Infinity_returns_NaN:
  "map_sum id fst
     (call codeunit_compare AlphaNumeric closure0 (''Infinity'', ()) (''Infinity'', ())) =
   Inr NaN"
  by (simp add: call_def alphaNumeric_result key_class_def rx_leading_zero_def Plus_def
      parseFloat_def scan_decimal_def scan_unsigned_def is_space_def white_space_def)










text \<open>
  C9, as the code has it. A key that starts with \<open>0\<close> and holds no line terminator matches
  \<open>^0+.*$\<close> and is text, so every key classified as a number stands before it: \<open>5\<close> stands
  before \<open>0.5\<close>, and \<open>0\<close> is not equal to the empty key but stands after it.
\<close>

theorem leading_zero_textual:
  "(x \<noteq> [] \<and> hd x = CHR ''0'' \<and> set x \<inter> set line_terminators = {} \<longrightarrow>
      rx_test rx_leading_zero x \<and> key_class x = JString x \<and>
      (key_class y = JNumber n \<longrightarrow>
         map_sum id (sign_of \<circ> fst) (alphaNumeric lc s (y, r) (x, r')) = Inr (Some Negative) \<and>
         map_sum id (sign_of \<circ> fst) (alphaNumeric lc s (x, r') (y, r)) = Inr (Some Positive))) \<and>
   map_sum id (sign_of \<circ> fst) (alphaNumeric lc s (''5'', r) (''0.5'', r')) = Inr (Some Negative) \<and>
   map_sum id (sign_of \<circ> fst) (alphaNumeric lc s (''0'', r) ([], r')) = Inr (Some Positive)"
proof -
  have z: "key_class ''0.5'' = JString ''0.5''" "key_class ''0'' = JString ''0''"
    by (simp_all add: key_class_def rx_leading_zero_def Plus_def line_terminators_def)
  show ?thesis
    by (auto simp: alphaNumeric_result rx_leading_zero_matches key_class_leading_zero z
        key_class_5 key_class_empty typeof_number_string js_int_sign)
qed

theorem leading_zero_textual_witness:
  "''0.5'' \<noteq> [] \<and> hd ''0.5'' = CHR ''0'' \<and> set ''0.5'' \<inter> set line_terminators = {} \<and>
   rx_test rx_leading_zero ''0.5'' \<and> key_class ''0.5'' = JString ''0.5'' \<and>
   key_class ''5'' = JNumber (parseFloat ''5'') \<and>
   map_sum id (sign_of \<circ> fst)
     (alphaNumeric codeunit_compare closure0 (''5'', ()) (''0.5'', ())) = Inr (Some Negative) \<and>
   map_sum id (sign_of \<circ> fst)
     (alphaNumeric codeunit_compare closure0 (''0.5'', ()) (''5'', ())) = Inr (Some Positive)"
  using leading_zero_textual[of "''0.5''" "''5''" "parseFloat ''5''" codeunit_compare closure0
      "()" "()"]
  by (simp add: key_class_5 parseFloat_5 line_terminators_def)

text \<open>
  C9, as stated, fails: the key \<open>0\<close>, line feed, \<open>1\<close> (a cell whose text runs over two lines)
  starts with \<open>0\<close>, but \<open>.\<close> stops at the line feed and \<open>$\<close> wants the end, so the pattern
  does not match; \<open>parseFloat\<close> reads the number 0. The key \<open>5\<close> then stands after it, and
  it is equal to the empty key.
\<close>

theorem leading_zero_with_line_feed_is_numeric:
  "hd ''0\<newline>1'' = CHR ''0'' \<and> \<not> rx_test rx_leading_zero ''0\<newline>1'' \<and>
   key_class ''0\<newline>1'' = JNumber (Fin 0) \<and>
   map_sum id (sign_of \<circ> fst)
     (alphaNumeric codeunit_compare closure0 (''5'', ()) (''0\<newline>1'', ())) =
     Inr (Some Positive) \<and>
   map_sum id (sign_of \<circ> fst)
     (alphaNumeric codeunit_compare closure0 (''0\<newline>1'', ()) ([], ())) = Inr (Some Zero)"
proof -
  have k: "key_class ''0\<newline>1'' = JNumber (Fin 0)"
    by (simp add: key_class_def rx_leading_zero_def Plus_def line_terminators_def
        parseFloat_def scan_decimal_def scan_unsigned_def scan_exponent_def is_space_def
        white_space_def is_digit_def digits_def parseInt10_def digit_val_def Let_def
        number_value_def round_grid_def round_units_zero overflow_bound_pos not_le)
  show ?thesis
    using unit_scale_pos
    by (simp add: alphaNumeric_result k key_class_5 key_class_empty number_value_5
        round_grid_sign rx_leading_zero_def Plus_def line_terminators_def)
qed

subsection \<open>The numeric comparator\<close>

lemma call_eq:
  "call lc f s a b = Inr (compare_keys lc f (fst a) (fst b), vars_after lc f s a b)"
  using call_compare_keys[of lc f s a b] by (auto simp: vars_after_def)

lemma stripJS_filter: "stripJS x = filter (\<lambda>c. c \<in> set ''0123456789.-'') x"
  by (induction x) (simp_all add: stripJS_def drop_char_def keep_chars_def digits_def)

lemma compare_keys_sortNumberJS:
  "compare_keys lc SortNumberJS x y =
     js_sub (zero_if_NaN (StringToNumber (stripJS x))) (zero_if_NaN (StringToNumber (stripJS y)))"
  using sortNumberJS_result[of closure0 "(x, ())" "(y, ())"]
  by (auto simp: compare_keys_def call_def)

lemma strip_1234_50: "StringToNumber (stripJS ''$1,234.50'') = number_value 123450 10 (- 2)"
  by (simp add: stripJS_def drop_char_def keep_chars_def digits_def StringToNumber_def trim_def is_space_def white_space_def
    scan_nondecimal_def scan_decimal_def scan_unsigned_def scan_exponent_def is_digit_def parseInt10_def digit_val_def Let_def)

lemma strip_99_90: "StringToNumber (stripJS ''$99.90'') = number_value 9990 10 (- 2)"
  by (simp add: stripJS_def drop_char_def keep_chars_def digits_def StringToNumber_def trim_def is_space_def white_space_def
    scan_nondecimal_def scan_decimal_def scan_unsigned_def scan_exponent_def is_digit_def parseInt10_def digit_val_def Let_def)

lemma strip_NA: "StringToNumber (stripJS ''N/A'') = Fin 0"
  by (simp add: stripJS_def drop_char_def keep_chars_def digits_def StringToNumber_def trim_def)

lemma strip_1_minus_2: "StringToNumber (stripJS ''1-2'') = NaN"
  by (simp add: stripJS_def drop_char_def keep_chars_def digits_def StringToNumber_def trim_def is_space_def white_space_def
    scan_nondecimal_def scan_decimal_def scan_unsigned_def scan_exponent_def is_digit_def parseInt10_def digit_val_def Let_def)

lemma value_1234_50: "number_value 123450 10 (- 2) = Fin (2469 * 2 ^ 1073)"
  by code_simp

lemma value_99_90: "number_value 9990 10 (- 2) = Fin (3514918771674317 * 2 ^ 1029)"
  by code_simp

lemma sign_js_sub_Fin:
  "sign_of (js_sub (Fin a) (Fin b)) =
     Some (if a < b then Negative else if a = b then Zero else Positive)"
  by (simp add: round_grid_sign)

lemma zero_if_NaN_Fin: "zero_if_NaN (Fin n) = Fin n"
  by (simp add: zero_if_NaN_def)

text \<open>
  C5. Under \<open>sortNumberJS\<close> the keys \<open>$1,234.50\<close>, \<open>$99.90\<close>, \<open>N/A\<close> sort to \<open>N/A\<close>, \<open>$99.90\<close>,
  \<open>$1,234.50\<close>. The comparator keeps the digits, \<open>.\<close> and \<open>-\<close> of each key, reads what is left as
  a number, takes 0 where that is not a number (as for \<open>1-2\<close>; the empty rest of \<open>N/A\<close> reads
  as 0 already), and returns the difference.
\<close>

theorem sortNumberJS_currency_example:
  "map_sum id fst
     (array_sort (call lc SortNumberJS)
        [(''$1,234.50'', r1), (''$99.90'', r2), (''N/A'', r3)] s) =
     Inr [(''N/A'', r3), (''$99.90'', r2), (''$1,234.50'', r1)] \<and>
   stripJS x = filter (\<lambda>c. c \<in> set ''0123456789.-'') x \<and>
   map_sum id fst (sortNumberJS s a b) =
     Inr (js_sub (zero_if_NaN (StringToNumber (stripJS (fst a))))
                 (zero_if_NaN (StringToNumber (stripJS (fst b))))) \<and>
   zero_if_NaN NaN = Fin 0 \<and>
   StringToNumber (stripJS ''N/A'') = Fin 0 \<and>
   zero_if_NaN (StringToNumber (stripJS ''1-2'')) = Fin 0"
proof -
  have "map_sum id fst (sortNumberJS s a b) =
     Inr (js_sub (zero_if_NaN (StringToNumber (stripJS (fst a))))
                 (zero_if_NaN (StringToNumber (stripJS (fst b)))))"
    using sortNumberJS_result[of s a b] by auto
  moreover have "map_sum id fst
     (array_sort (call lc SortNumberJS)
        [(''$1,234.50'', r1), (''$99.90'', r2), (''N/A'', r3)] s) =
     Inr [(''N/A'', r3), (''$99.90'', r2), (''$1,234.50'', r1)]"
    by (simp add: call_eq compare_keys_sortNumberJS strip_1234_50 strip_99_90 strip_NA value_1234_50 value_99_90 zero_if_NaN_Fin
        sign_js_sub_Fin del: js_sub.simps)
  moreover have "stripJS x = filter (\<lambda>c. c \<in> set ''0123456789.-'') x"
    by (rule stripJS_filter)
  moreover have "zero_if_NaN NaN = Fin 0" "zero_if_NaN (StringToNumber (stripJS ''1-2'')) = Fin 0"
    by (simp_all add: strip_1_minus_2 zero_if_NaN_def)
  ultimately show ?thesis
    using strip_NA by blast
qed

subsection \<open>Override tags\<close>

lemma getSortFn_registry:
  "getSortFn ''alphaNumeric'' = Some AlphaNumeric"
  "getSortFn ''sortDate'' = Some SortDate"
  "getSortFn ''sortNumberJS'' = Some SortNumberJS"
  "getSortFn ''sortNumber_nonJS'' = Some SortNumber_nonJS"
  by (simp_all add: getSortFn_def sort_functions_def match_here_def)

text \<open>
  A header cell whose class is one of the four other names gets the comparator of that name,
  whatever the body holds (and also when there is no body to take a first row from).
\<close>

theorem override_named_comparator:
  assumes "name \<in> {''alphaNumeric'', ''sortDate'', ''sortNumberJS'', ''sortNumber_nonJS''}"
    and "className st th = name"
  shows "getSortFn name = map_of sort_functions name \<and>
     (\<exists>st'. prepare_cells st tableElem i [th] = Inr st' \<and>
        map_option sortfn (th_props st' th) = map_of sort_functions name)"
proof -
  from assms(1) have g: "getSortFn name = map_of sort_functions name"
    using getSortFn_registry by (auto simp: sort_functions_def)
  from assms(1) obtain fn where f: "map_of sort_functions name = Some fn"
    by (auto simp: sort_functions_def)
  with g assms(2) show ?thesis by simp
qed

theorem override_named_comparator_witness:
  "''sortNumberJS'' \<in> {''alphaNumeric'', ''sortDate'', ''sortNumberJS'', ''sortNumber_nonJS''} \<and>
   className (american_page\<lparr>className := (\<lambda>c. ''sortNumberJS'')\<rparr>) 1 = ''sortNumberJS'' \<and>
   getSortFn ''sortNumberJS'' = Some SortNumberJS \<and>
   (\<exists>st'. prepare_cells (american_page\<lparr>className := (\<lambda>c. ''sortNumberJS'')\<rparr>)
            american_table 0 [1] = Inr st' \<and>
        map_option sortfn (th_props st' 1) = Some SortNumberJS)"
  using override_named_comparator[of "''sortNumberJS''"
      "american_page\<lparr>className := (\<lambda>c. ''sortNumberJS'')\<rparr>" 1 american_table 0]
  by (simp add: sort_functions_def)

text \<open>
  C3. The tag \<open>sortDate_American\<close> does not get the comparator of that name: the alternation
  \<open>alphaNumeric|sortDate|sortDate_American|...\<close> finds \<open>sortDate\<close> first, so \<open>getSortFn\<close>
  returns the day-first comparator, and \<open>setup\<close> stores it in the header cell of a column
  tagged \<open>sortDate_American\<close>.
\<close>

theorem override_sortDate_American_gets_sortDate:
  "getSortFn ''sortDate_American'' = Some SortDate \<and>
   (\<exists>st. jrSortTables_setup american_page [american_table] = Inr st \<and>
         map_option sortfn (th_props st 1) = Some SortDate)"
  by (simp add: getSortFn_def sort_functions_def match_here_def prepareTables_def
      american_page_def american_table_def addEvent_def)

subsection \<open>The type classifier\<close>

lemma guess_examples:
  "guessDataType ''25/12/2023'' = SortDate"
  "guessDataType ''02/25/2023'' = SortDate_American"
  "guessDataType ''03/04/2023'' = SortDate"
  by (simp_all add: guessDataType_def rx_number_def Opt_def Plus_def digits_def white_space_def
      rx_date_def all_digits_def parseInt10_def digit_val_def)

text \<open>
  C6. A sample whose two separators are periods matches the date pattern (day 25, month 12),
  but the number pattern is tested first and matches it too: the classifier returns the
  period-decimal numeric comparator, not the day-first one.
\<close>

theorem dotted_date_classified_numeric:
  "rx_date ''25.12.2023'' = Some (''25'', ''12'', ''2023'') \<and>
   guessDataType ''25.12.2023'' = SortNumberJS"
  by (simp add: guessDataType_def rx_number_def Opt_def Plus_def digits_def white_space_def
      rx_date_def all_digits_def)

subsection \<open>The order a comparator gives\<close>

lemma sign_js_sub_Positive:
  "u \<noteq> NaN \<Longrightarrow> v \<noteq> NaN \<Longrightarrow> (sign_of (js_sub u v) = Some Positive) = js_num_less v u"
  by (cases u; cases v) (simp_all add: round_grid_sign)

lemma js_num_less_asym: "js_num_less u v \<Longrightarrow> \<not> js_num_less v u"
  by (cases u; cases v) simp_all

lemma sort_le_number:
  assumes "\<And>x y. compare_keys lc f x y = js_sub (g x) (g y)" "\<And>x. g x \<noteq> NaN"
  shows "sort_le lc f x y = (\<not> js_num_less (g y) (g x))"
  by (simp add: sort_le_def assms sign_js_sub_Positive)

lemma compare_keys_sortNumber_nonJS:
  "compare_keys lc SortNumber_nonJS x y =
     js_sub (zero_if_NaN (StringToNumber (strip_nonJS x))) (zero_if_NaN (StringToNumber (strip_nonJS y)))"
  using sortNumber_nonJS_result[of closure0 "(x, ())" "(y, ())"]
  by (auto simp: compare_keys_def call_def)

lemma compare_keys_alphaNumeric:
  "compare_keys lc AlphaNumeric x y = compare_classified lc (key_class x) (key_class y)"
  by (simp add: compare_keys_def call_def alphaNumeric_result)

lemma sort_le_sortDate:
  "sort_le lc SortDate x y =
     (substr x 6 4 @ substr x 3 2 @ substr x 0 2 \<le> substr y 6 4 @ substr y 3 2 @ substr y 0 2)"
  by (auto simp: sort_le_def compare_keys_def call_def sortDate_result Let_def js_int_sign)

lemma sort_le_sortDate_American:
  "sort_le lc SortDate_American x y =
     (substr x 6 4 @ substr x 0 2 @ substr x 3 2 \<le> substr y 6 4 @ substr y 0 2 @ substr y 3 2)"
  by (auto simp: sort_le_def compare_keys_def call_def sortDate_American_result Let_def js_int_sign)

lemma sort_le_alphaNumeric:
  "sort_le lc AlphaNumeric x y =
     (case (key_class x, key_class y) of
        (JString s, JString t) \<Rightarrow> lc s t \<le> 0
      | (JNumber m, JNumber n) \<Rightarrow> \<not> js_num_less n m
      | (JNumber m, JString t) \<Rightarrow> True
      | _ \<Rightarrow> False)"
  using key_class_cases[of x] key_class_cases[of y]
  by (auto simp: sort_le_def compare_keys_alphaNumeric js_int_sign sign_js_sub_Positive typeof_number_string
      split: if_splits)

lemma sort_le_total:
  assumes "f = AlphaNumeric \<longrightarrow> consistent lc" "\<not> sort_le lc f x y"
  shows "sort_le lc f y x"
proof (cases f)
  case AlphaNumeric
  with assms have c: "\<And>x y. 0 < lc x y \<Longrightarrow> lc y x \<le> 0" by (simp add: consistent_def)
  from key_class_cases[of x] key_class_cases[of y] show ?thesis
  proof (elim disjE exE conjE)
    fix s t assume "key_class x = JString s" "key_class y = JString t"
    with assms(2) c[of s t] show ?thesis by (simp add: AlphaNumeric sort_le_alphaNumeric)
  next
    fix s n assume "key_class x = JString s" "key_class y = JNumber n"
    then show ?thesis by (simp add: AlphaNumeric sort_le_alphaNumeric)
  next
    fix m t assume "key_class x = JNumber m" "key_class y = JString t"
    with assms(2) show ?thesis by (simp add: AlphaNumeric sort_le_alphaNumeric)
  next
    fix m n assume "key_class x = JNumber m" "key_class y = JNumber n"
    with assms(2) js_num_less_asym[of n m] show ?thesis
      by (auto simp: AlphaNumeric sort_le_alphaNumeric)
  qed
next
  case SortDate
  with assms show ?thesis by (simp add: sort_le_sortDate)
next
  case SortDate_American
  with assms show ?thesis by (simp add: sort_le_sortDate_American)
next
  case SortNumberJS
  with assms show ?thesis
    by (simp add: sort_le_number[of lc SortNumberJS, OF compare_keys_sortNumberJS zero_if_NaN_not_NaN]
        js_num_less_asym)
next
  case SortNumber_nonJS
  with assms show ?thesis
    by (simp add: sort_le_number[of lc SortNumber_nonJS, OF compare_keys_sortNumber_nonJS zero_if_NaN_not_NaN]
        js_num_less_asym)
qed

lemma not_less_trans:
  assumes "u \<noteq> NaN" "v \<noteq> NaN" "w \<noteq> NaN" "\<not> js_num_less v u" "\<not> js_num_less w v"
  shows "\<not> js_num_less w u"
  using assms by (cases u; cases v; cases w) auto

lemma sort_le_trans:
  assumes "f = AlphaNumeric \<longrightarrow> consistent lc" "sort_le lc f x y" "sort_le lc f y z"
  shows "sort_le lc f x z"
proof (cases f)
  case AlphaNumeric
  with assms have c: "\<And>x y z. lc x y \<le> 0 \<Longrightarrow> lc y z \<le> 0 \<Longrightarrow> lc x z \<le> 0"
    unfolding consistent_def by blast
  from key_class_cases[of x] key_class_cases[of y] key_class_cases[of z] show ?thesis
  proof (elim disjE exE conjE)
    fix s t u assume "key_class x = JString s" "key_class y = JString t" "key_class z = JString u"
    with assms(2,3) c[of s t u] show ?thesis by (simp add: AlphaNumeric sort_le_alphaNumeric)
  next
    fix l m n assume "key_class x = JNumber l" "l \<noteq> NaN" "key_class y = JNumber m" "m \<noteq> NaN"
      "key_class z = JNumber n" "n \<noteq> NaN"
    with assms(2,3) not_less_trans[of l m n] show ?thesis
      by (simp add: AlphaNumeric sort_le_alphaNumeric)
  qed (use assms(2,3) in \<open>simp_all add: AlphaNumeric sort_le_alphaNumeric\<close>)
next
  case SortDate
  with assms show ?thesis by (simp add: sort_le_sortDate)
next
  case SortDate_American
  with assms show ?thesis by (simp add: sort_le_sortDate_American)
next
  case SortNumberJS
  with assms show ?thesis
    using not_less_trans[OF zero_if_NaN_not_NaN zero_if_NaN_not_NaN zero_if_NaN_not_NaN]
    by (simp add: sort_le_number[of lc SortNumberJS, OF compare_keys_sortNumberJS zero_if_NaN_not_NaN])
next
  case SortNumber_nonJS
  with assms show ?thesis
    using not_less_trans[OF zero_if_NaN_not_NaN zero_if_NaN_not_NaN zero_if_NaN_not_NaN]
    by (simp add: sort_le_number[of lc SortNumber_nonJS, OF compare_keys_sortNumber_nonJS zero_if_NaN_not_NaN])
qed

subsection \<open>The sort primitive on the registry comparators\<close>

lemma insert_sorted_step:
  "insert_sorted (call lc f) x (y # ys) s =
     (if sort_le lc f (fst x) (fst y) then Inr (x # y # ys, vars_after lc f s x y)
      else (case insert_sorted (call lc f) x ys (vars_after lc f s x y) of
              Inl e \<Rightarrow> Inl e
            | Inr (zs, s'') \<Rightarrow> Inr (y # zs, s'')))"
  by (simp add: call_eq[of lc f s x y] sort_le_def)

lemma insert_sorted_call:
  assumes c: "f = AlphaNumeric \<longrightarrow> consistent lc"
    and s: "sorted_wrt (\<lambda>a b. sort_le lc f (fst a) (fst b)) ys"
  shows "\<exists>zs s'. insert_sorted (call lc f) x ys s = Inr (zs, s') \<and>
           sorted_wrt (\<lambda>a b. sort_le lc f (fst a) (fst b)) zs \<and> mset zs = add_mset x (mset ys)"
  using s
proof (induction ys arbitrary: s)
  case Nil
  then show ?case by simp
next
  case (Cons y ys)
  show ?case
  proof (cases "sort_le lc f (fst x) (fst y)")
    case True
    have "\<forall>z \<in> set ys. sort_le lc f (fst x) (fst z)"
      using Cons.prems True sort_le_trans[OF c] by auto
    with True Cons.prems show ?thesis
      by (simp add: insert_sorted_step del: insert_sorted.simps)
  next
    case False
    then have yx: "sort_le lc f (fst y) (fst x)"
      by (rule sort_le_total[OF c])
    from Cons.prems have "sorted_wrt (\<lambda>a b. sort_le lc f (fst a) (fst b)) ys" by simp
    from Cons.IH[OF this, of "vars_after lc f s x y"]
    obtain zs s' where z: "insert_sorted (call lc f) x ys (vars_after lc f s x y) = Inr (zs, s')"
      "sorted_wrt (\<lambda>a b. sort_le lc f (fst a) (fst b)) zs" "mset zs = add_mset x (mset ys)"
      by blast
    from z(3) have "set zs = insert x (set ys)"
      by (metis set_mset_add_mset_insert set_mset_mset)
    with yx Cons.prems have "\<forall>z \<in> set zs. sort_le lc f (fst y) (fst z)" by auto
    with z False show ?thesis
      by (simp add: insert_sorted_step del: insert_sorted.simps)
  qed
qed

lemma array_sort_call:
  assumes c: "f = AlphaNumeric \<longrightarrow> consistent lc"
  shows "\<exists>zs s'. array_sort (call lc f) xs s = Inr (zs, s') \<and>
           sorted_wrt (\<lambda>a b. sort_le lc f (fst a) (fst b)) zs \<and> mset zs = mset xs"
proof (induction xs)
  case Nil
  then show ?case by simp
next
  case (Cons x xs)
  then obtain zs s' where z: "array_sort (call lc f) xs s = Inr (zs, s')"
    "sorted_wrt (\<lambda>a b. sort_le lc f (fst a) (fst b)) zs" "mset zs = mset xs"
    by blast
  from insert_sorted_call[OF c z(2), of x s'] z show ?case
    by auto
qed

lemma collect_keys_all:
  "\<forall>row \<in> set tbr. column < length (cells st row) \<Longrightarrow>
   collect_keys st column tbr = Inr (map (\<lambda>row. (cell_text st column row, row)) tbr)"
  by (induction tbr) (simp_all add: cell_text_def)

lemma appendChild_all:
  "distinct fragment \<Longrightarrow>
   foldl appendChild (rs, fr) fragment =
     ((\<lambda>t. filter (\<lambda>r. r \<notin> set fragment) (rs t)), filter (\<lambda>r. r \<notin> set fragment) fr @ fragment)"
proof (induction fragment arbitrary: rs fr)
  case Nil
  then show ?case by simp
next
  case (Cons x xs)
  have f: "\<And>ys. filter (\<lambda>r. r \<notin> set xs) (removeAll x ys) = filter (\<lambda>r. r \<noteq> x \<and> r \<notin> set xs) ys"
    by (simp add: removeAll_filter_not_eq conj_commute) (metis)
  from Cons show ?case
    by (simp add: appendChild_def f)
qed

lemma move_rows:
  assumes "distinct fragment" "set (rs tb) \<subseteq> set fragment"
  shows "appendFragment (fst (foldl appendChild (rs, []) fragment)) tb
           (snd (foldl appendChild (rs, []) fragment)) tb = fragment"
  using assms by (simp add: appendChild_all appendFragment_def filter_empty_conv subset_iff)

subsection \<open>Sorting and toggling a column\<close>

lemma moved_tb:
  "distinct fragment \<Longrightarrow> set (rows st tb) \<subseteq> set fragment \<Longrightarrow> moved st tb fragment tb = fragment"
  unfolding moved_def by (rule move_rows)

lemma toggle_sort:
  assumes p: "tableProp st tn = Some p" and tb: "tbody p = Some tb"
    and c: "cellIndex st th < length (headerCells p)"
    and h: "th_props st (headerCells p ! cellIndex st th) = Some h"
    and s: "isSorted h" and cur: "currentSortedTBody h = Some cur"
  shows "jrSortTables_sort lc st tn th =
       Inr (st\<lparr>rows := moved st tb (if sortdir h = Up then rev (map snd cur) else map snd cur),
               arrow := (arrow st)(spanArrowId p \<mapsto> (th, if sortdir h = Up then Down else Up)),
               th_props := (th_props st)(headerCells p ! cellIndex st th \<mapsto>
                  h\<lparr>currentSortedTBody := Some cur,
                    sortdir := (if sortdir h = Up then Down else Up)\<rparr>)\<rparr>)"
proof (cases "sortdir h = Up")
  case True
  with p tb c h s cur show ?thesis
    by (simp add: jrSortTables_sort_def finish_sort_def Let_def moved_def)
next
  case False
  then have dn: "sortdir h = Down" by (cases "sortdir h") simp_all
  with p tb c h s cur show ?thesis
    by (simp add: jrSortTables_sort_def finish_sort_def Let_def moved_def)
qed

lemma first_sort:
  assumes p: "tableProp st tn = Some p" and tb: "tbody p = Some tb"
    and c: "cellIndex st th < length (headerCells p)"
    and h: "th_props st (headerCells p ! cellIndex st th) = Some h"
    and s: "\<not> isSorted h"
    and cl: "\<forall>row \<in> set (rows st tb). cellIndex st th < length (cells st row)"
    and lc: "sortfn h = AlphaNumeric \<longrightarrow> consistent lc"
  shows "\<exists>cur vs.
     sorted_wrt (\<lambda>a b. sort_le lc (sortfn h) (fst a) (fst b)) cur \<and>
     mset cur = mset (map (\<lambda>row. (cell_text st (cellIndex st th) row, row)) (rows st tb)) \<and>
     jrSortTables_sort lc st tn th =
       Inr (st\<lparr>vars := vs, rows := moved st tb (map snd cur),
               arrow := (arrow st)(spanArrowId p \<mapsto> (th, sortdir h)),
               th_props := (th_props st)(headerCells p ! cellIndex st th \<mapsto>
                  h\<lparr>isSorted := True, currentSortedTBody := Some cur, sortdir := sortdir h\<rparr>)\<rparr>)"
proof -
  let ?keys = "map (\<lambda>row. (cell_text st (cellIndex st th) row, row)) (rows st tb)"
  from array_sort_call[OF lc, of ?keys "vars st"]
  obtain cur vs where a: "array_sort (call lc (sortfn h)) ?keys (vars st) = Inr (cur, vs)"
    "sorted_wrt (\<lambda>a b. sort_le lc (sortfn h) (fst a) (fst b)) cur" "mset cur = mset ?keys"
    by blast
  have "jrSortTables_sort lc st tn th =
       Inr (st\<lparr>vars := vs, rows := moved st tb (map snd cur),
               arrow := (arrow st)(spanArrowId p \<mapsto> (th, sortdir h)),
               th_props := (th_props st)(headerCells p ! cellIndex st th \<mapsto>
                  h\<lparr>isSorted := True, currentSortedTBody := Some cur, sortdir := sortdir h\<rparr>)\<rparr>)"
    using a(1) p tb c h s collect_keys_all[OF cl]
    by (simp add: jrSortTables_sort_def finish_sort_def Let_def moved_def)
  with a(2,3) show ?thesis by blast
qed

lemma sorted_rows_of_sorted_keys:
  assumes "sorted_wrt (\<lambda>a b. R (fst a) (fst b)) cur" "mset cur = mset (map (\<lambda>row. (k row, row)) rs)"
  shows "sorted_wrt (\<lambda>r r'. R (k r) (k r')) (map snd cur)"
proof -
  from assms(2) have "set cur = (\<lambda>row. (k row, row)) ` set rs"
    by (metis mset_eq_setD set_map)
  then have "\<forall>a \<in> set cur. fst a = k (snd a)" by auto
  then have "\<And>a b. a \<in> set cur \<Longrightarrow> b \<in> set cur \<Longrightarrow> R (fst a) (fst b) \<Longrightarrow> R (k (snd a)) (k (snd b))"
    by simp
  from sorted_wrt_mono_rel[OF this assms(1)]
  have "sorted_wrt (\<lambda>a b. R (k (snd a)) (k (snd b))) cur" .
  then show ?thesis by (simp add: sorted_wrt_map)
qed

lemma rows_of_sorted_keys:
  assumes "mset cur = mset (map (\<lambda>row. (k row, row)) rs)"
  shows "mset (map snd cur) = mset rs"
proof -
  from assms have "mset (map snd cur) = mset (map snd (map (\<lambda>row. (k row, row)) rs))"
    by (metis mset_map)
  then show ?thesis by (simp add: comp_def)
qed

lemma three_sorts:
  assumes p: "tableProp st tn = Some p" and tb: "tbody p = Some tb"
    and c: "cellIndex st th < length (headerCells p)"
    and h: "th_props st (headerCells p ! cellIndex st th) = Some h"
    and s: "\<not> isSorted h" and up: "sortdir h = Up"
    and d: "distinct (rows st tb)"
    and cl: "\<forall>row \<in> set (rows st tb). cellIndex st th < length (cells st row)"
    and lc: "sortfn h = AlphaNumeric \<longrightarrow> consistent lc"
  shows "\<exists>cur st1 st2 st3.
     jrSortTables_sort lc st tn th = Inr st1 \<and>
     jrSortTables_sort lc st1 tn th = Inr st2 \<and>
     jrSortTables_sort lc st2 tn th = Inr st3 \<and>
     sorted_wrt (\<lambda>a b. sort_le lc (sortfn h) (fst a) (fst b)) cur \<and>
     mset cur = mset (map (\<lambda>row. (cell_text st (cellIndex st th) row, row)) (rows st tb)) \<and>
     rows st1 tb = map snd cur \<and> rows st2 tb = rev (map snd cur) \<and> rows st3 tb = map snd cur \<and>
     onclick st1 = onclick st \<and> onclick st2 = onclick st"
proof -
  let ?hc = "headerCells p ! cellIndex st th"
  from first_sort[OF p tb c h s cl lc]
  obtain cur vs where cur:
    "sorted_wrt (\<lambda>a b. sort_le lc (sortfn h) (fst a) (fst b)) cur"
    "mset cur = mset (map (\<lambda>row. (cell_text st (cellIndex st th) row, row)) (rows st tb))"
    and s1: "jrSortTables_sort lc st tn th =
       Inr (st\<lparr>vars := vs, rows := moved st tb (map snd cur),
               arrow := (arrow st)(spanArrowId p \<mapsto> (th, sortdir h)),
               th_props := (th_props st)(?hc \<mapsto>
                  h\<lparr>isSorted := True, currentSortedTBody := Some cur, sortdir := sortdir h\<rparr>)\<rparr>)"
      (is "_ = Inr ?st1")
    by blast
  have m: "mset (map snd cur) = mset (rows st tb)"
    by (rule rows_of_sorted_keys[OF cur(2)])
  then have dc: "distinct (map snd cur)" and sc: "set (rows st tb) = set (map snd cur)"
    using d by (metis mset_eq_imp_distinct_iff, metis mset_eq_setD)
  have r1: "rows ?st1 tb = map snd cur"
    using dc sc by (simp add: moved_tb)
  have s2: "jrSortTables_sort lc ?st1 tn th =
      Inr (?st1\<lparr>rows := moved ?st1 tb (rev (map snd cur)),
               arrow := (arrow ?st1)(spanArrowId p \<mapsto> (th, Down)),
               th_props := (th_props ?st1)(?hc \<mapsto>
                  h\<lparr>isSorted := True, currentSortedTBody := Some cur, sortdir := Down\<rparr>)\<rparr>)"
      (is "_ = Inr ?st2")
    using toggle_sort[of ?st1 tn p tb th
        "h\<lparr>isSorted := True, currentSortedTBody := Some cur, sortdir := sortdir h\<rparr>" cur lc]
      p tb c up by simp
  have r2: "rows ?st2 tb = rev (map snd cur)"
    using dc r1 by (simp add: moved_tb)
  have s3: "jrSortTables_sort lc ?st2 tn th =
      Inr (?st2\<lparr>rows := moved ?st2 tb (map snd cur),
               arrow := (arrow ?st2)(spanArrowId p \<mapsto> (th, Up)),
               th_props := (th_props ?st2)(?hc \<mapsto>
                  h\<lparr>isSorted := True, currentSortedTBody := Some cur, sortdir := Up\<rparr>)\<rparr>)"
      (is "_ = Inr ?st3")
    using toggle_sort[of ?st2 tn p tb th
        "h\<lparr>isSorted := True, currentSortedTBody := Some cur, sortdir := Down\<rparr>" cur lc]
      p tb c by simp
  have r3: "rows ?st3 tb = map snd cur"
    using dc r2 by (simp add: moved_tb)
  show ?thesis
    using s1 s2 s3 r1 r2 r3 cur
    by (intro exI[of _ cur] exI[of _ ?st1] exI[of _ ?st2] exI[of _ ?st3]) simp
qed

text \<open>
  C1. Take a table whose body rows are distinct and have a cell in the column, and a column
  that has not been sorted (the state \<open>setup\<close> leaves: not sorted, direction up). Three sort
  requests on the column succeed. After the first the body holds the same rows in ascending
  order of the column's comparator: no row stands before a row the comparator puts before
  it. After the second it holds the exact reverse, and after the third the reverse of that,
  which is the first order again. (\<open>alphaNumeric\<close> calls the host's \<open>localeCompare\<close>, which
  is taken to be consistent.)
\<close>

theorem sort_three_times:
  assumes p: "tableProp st tn = Some p" and tb: "tbody p = Some tb"
    and c: "cellIndex st th < length (headerCells p)"
    and h: "th_props st (headerCells p ! cellIndex st th) = Some h"
    and s: "\<not> isSorted h" and up: "sortdir h = Up"
    and d: "distinct (rows st tb)"
    and cl: "\<forall>row \<in> set (rows st tb). cellIndex st th < length (cells st row)"
    and lc: "sortfn h = AlphaNumeric \<longrightarrow> consistent lc"
  shows "\<exists>st1 st2 st3.
     jrSortTables_sort lc st tn th = Inr st1 \<and>
     jrSortTables_sort lc st1 tn th = Inr st2 \<and>
     jrSortTables_sort lc st2 tn th = Inr st3 \<and>
     mset (rows st1 tb) = mset (rows st tb) \<and>
     sorted_wrt (\<lambda>r r'. sort_le lc (sortfn h)
                  (cell_text st (cellIndex st th) r) (cell_text st (cellIndex st th) r'))
       (rows st1 tb) \<and>
     rows st2 tb = rev (rows st1 tb) \<and>
     rows st3 tb = rev (rows st2 tb) \<and>
     rows st3 tb = rows st1 tb"
proof -
  from three_sorts[OF p tb c h s up d cl lc]
  obtain cur st1 st2 st3 where r:
    "jrSortTables_sort lc st tn th = Inr st1" "jrSortTables_sort lc st1 tn th = Inr st2"
    "jrSortTables_sort lc st2 tn th = Inr st3"
    "sorted_wrt (\<lambda>a b. sort_le lc (sortfn h) (fst a) (fst b)) cur"
    "mset cur = mset (map (\<lambda>row. (cell_text st (cellIndex st th) row, row)) (rows st tb))"
    "rows st1 tb = map snd cur" "rows st2 tb = rev (map snd cur)" "rows st3 tb = map snd cur"
    by blast
  have "mset (rows st1 tb) = mset (rows st tb)"
    using rows_of_sorted_keys[OF r(5)] r(6) by simp
  moreover have "sorted_wrt (\<lambda>r r'. sort_le lc (sortfn h)
                  (cell_text st (cellIndex st th) r) (cell_text st (cellIndex st th) r'))
       (rows st1 tb)"
    using sorted_rows_of_sorted_keys[OF r(4,5)] r(6) by simp
  ultimately show ?thesis
    using r by (intro exI[of _ st1] exI[of _ st2] exI[of _ st3]) simp
qed

lemma consistent_codeunit_compare: "consistent codeunit_compare"
  by (auto simp: consistent_def codeunit_compare_def split: if_splits)

lemma guess_pear: "guessDataType ''pear'' = AlphaNumeric"
  by (simp add: guessDataType_def rx_number_def Opt_def Plus_def digits_def white_space_def
      rx_date_def all_digits_def)

lemma names_setup: "jrSortTables_setup names_page [names_table] = Inr names_ready"
  by (simp add: prepareTables_def names_page_def names_table_def names_ready_def names_prop_def
      date_header_def name_header_def addEvent_def getSortFn_def sort_functions_def match_here_def
      span_id_def
      getElementText_def white_space_def guess_examples guess_pear fun_upd_def fun_eq_iff)

theorem sort_three_times_witness:
  "jrSortTables_setup names_page [names_table] = Inr names_ready \<and>
   tableProp names_ready Undefined = Some names_prop \<and> tbody names_prop = Some 10 \<and>
   cellIndex names_ready 1 < length (headerCells names_prop) \<and>
   th_props names_ready (headerCells names_prop ! cellIndex names_ready 1) = Some name_header \<and>
   \<not> isSorted name_header \<and> sortdir name_header = Up \<and>
   sortfn name_header = AlphaNumeric \<and> consistent codeunit_compare \<and>
   rows names_ready 10 = [11, 12, 13] \<and>
   (\<exists>st1 st2 st3.
     jrSortTables_sort codeunit_compare names_ready Undefined 1 = Inr st1 \<and>
     jrSortTables_sort codeunit_compare st1 Undefined 1 = Inr st2 \<and>
     jrSortTables_sort codeunit_compare st2 Undefined 1 = Inr st3 \<and>
     mset (rows st1 10) = mset (rows names_ready 10) \<and>
     sorted_wrt (\<lambda>r r'. sort_le codeunit_compare AlphaNumeric
                  (cell_text names_ready 0 r) (cell_text names_ready 0 r'))
       (rows st1 10) \<and>
     rows st2 10 = rev (rows st1 10) \<and>
     rows st3 10 = rev (rows st2 10) \<and>
     rows st3 10 = rows st1 10)"
proof -
  have r: "rows names_ready 10 = [11, 12, 13]"
    by (simp add: names_ready_def names_page_def)
  have c: "cellIndex names_ready 1 = 0"
    by (simp add: names_ready_def names_page_def)
  have h: "th_props names_ready (headerCells names_prop ! cellIndex names_ready 1) = Some name_header"
    by (simp add: names_ready_def names_page_def names_prop_def)
  have p: "tableProp names_ready Undefined = Some names_prop"
    by (simp add: names_ready_def)
  have cl: "\<forall>row \<in> set (rows names_ready 10).
      cellIndex names_ready 1 < length (cells names_ready row)"
    by (simp add: names_ready_def names_page_def)
  have f: "sortfn name_header = AlphaNumeric" "\<not> isSorted name_header" "sortdir name_header = Up"
    by (simp_all add: name_header_def)
  have t: "tbody names_prop = Some 10" "cellIndex names_ready 1 < length (headerCells names_prop)"
    by (simp_all add: names_prop_def names_ready_def names_page_def)
  have d: "distinct (rows names_ready 10)"
    by (simp add: r)
  have lc: "sortfn name_header = AlphaNumeric \<longrightarrow> consistent codeunit_compare"
    by (simp add: consistent_codeunit_compare)
  from sort_three_times[OF p t h f(2,3) d cl lc]
  have "\<exists>st1 st2 st3.
     jrSortTables_sort codeunit_compare names_ready Undefined 1 = Inr st1 \<and>
     jrSortTables_sort codeunit_compare st1 Undefined 1 = Inr st2 \<and>
     jrSortTables_sort codeunit_compare st2 Undefined 1 = Inr st3 \<and>
     mset (rows st1 10) = mset (rows names_ready 10) \<and>
     sorted_wrt (\<lambda>r r'. sort_le codeunit_compare AlphaNumeric
                  (cell_text names_ready 0 r) (cell_text names_ready 0 r'))
       (rows st1 10) \<and>
     rows st2 10 = rev (rows st1 10) \<and>
     rows st3 10 = rev (rows st2 10) \<and>
     rows st3 10 = rows st1 10"
    unfolding c f(1) .
  with names_setup p t h f r consistent_codeunit_compare show ?thesis
    by blast
qed

subsection \<open>After setup\<close>

lemma prepare_cells_frame:
  "prepare_cells st tableElem i ths = Inr st' \<Longrightarrow>
   rows st' = rows st \<and> cells st' = cells st \<and> cellIndex st' = cellIndex st \<and>
   className st' = className st \<and> tableProp st' = tableProp st \<and> onclick st' = onclick st \<and>
   vars st' = vars st \<and> arrow st' = arrow st"
proof (induction ths arbitrary: st i)
  case Nil
  then show ?case by simp
next
  case (Cons th ths)
  then show ?case
    by (fastforce split: sum.splits option.splits list.splits if_splits)
qed

lemma prepare_cells_keeps_fresh:
  "prepare_cells st tableElem i ths = Inr st' \<Longrightarrow> fresh (th_props st c) \<Longrightarrow> fresh (th_props st' c)"
proof (induction ths arbitrary: st i)
  case Nil
  then show ?case by simp
next
  case (Cons th ths)
  from Cons.prems(1) obtain fn where
    r: "prepare_cells
             (st\<lparr>th_props := (th_props st)
                   (th \<mapsto> \<lparr>sortfn = fn, sortdir = Up, isSorted = False,
                          currentSortedTBody =
                            (case th_props st th of None \<Rightarrow> None
                             | Some h \<Rightarrow> currentSortedTBody h)\<rparr>)\<rparr>)
             tableElem (Suc i) ths = Inr st'"
    by (auto split: sum.splits)
  show ?case
    by (rule Cons.IH[OF r]) (use Cons.prems(2) in \<open>simp add: fresh_def\<close>)
qed

lemma prepare_cells_fresh:
  "prepare_cells st tableElem i ths = Inr st' \<Longrightarrow> c \<in> set ths \<Longrightarrow> fresh (th_props st' c)"
proof (induction ths arbitrary: st i)
  case Nil
  then show ?case by simp
next
  case (Cons th ths)
  from Cons.prems(1) obtain fn where
    r: "prepare_cells
             (st\<lparr>th_props := (th_props st)
                   (th \<mapsto> \<lparr>sortfn = fn, sortdir = Up, isSorted = False,
                          currentSortedTBody =
                            (case th_props st th of None \<Rightarrow> None
                             | Some h \<Rightarrow> currentSortedTBody h)\<rparr>)\<rparr>)
             tableElem (Suc i) ths = Inr st'"
    by (auto split: sum.splits)
  show ?case
  proof (cases "c = th")
    case True
    show ?thesis
      by (rule prepare_cells_keeps_fresh[OF r]) (simp add: True fresh_def)
  next
    case False
    with Cons.prems(2) have "c \<in> set ths" by simp
    from Cons.IH[OF r this] show ?thesis .
  qed
qed

lemma prepareTables_result:
  assumes "prepareTables st tableElem tn = Inr st'" "tHead tableElem = FirstRow ths"
  shows "tableProp st' tn =
           Some \<lparr>headerCells = ths, spanArrowId = span_id tn, tbody = tBody tableElem\<rparr> \<and>
         (\<forall>c \<in> set ths. fresh (th_props st' c) \<and> onclick st' c = Some tn) \<and>
         rows st' = rows st \<and> cells st' = cells st \<and> cellIndex st' = cellIndex st"
proof -
  let ?st1 = "st\<lparr>tableProp := (tableProp st)
                  (tn \<mapsto> \<lparr>headerCells = [], spanArrowId = span_id tn, tbody = tBody tableElem\<rparr>)\<rparr>"
  from assms obtain st2 where p: "prepare_cells ?st1 tableElem 0 ths = Inr st2"
    by (auto simp: prepareTables_def Let_def split: sum.splits)
  from prepare_cells_frame[OF p] have fr: "rows st2 = rows st" "cells st2 = cells st"
    "cellIndex st2 = cellIndex st" by simp_all
  have f2: "\<forall>c \<in> set ths. fresh (th_props st2 c)"
    using prepare_cells_fresh[OF p] by blast
  from assms p fr f2 show ?thesis
    by (auto simp: prepareTables_def Let_def addEvent_def split: first_row.splits)
qed

lemma setup_append:
  "jrSortTables_setup st (tables @ [tbl]) =
     (case jrSortTables_setup st tables of Inl e \<Rightarrow> Inl e | Inr s \<Rightarrow> prepareTables s tbl Undefined)"
  by (induction tables arbitrary: st) (simp_all split: sum.splits)

lemma prepareTables_frame:
  assumes "prepareTables st tableElem tn = Inr st'"
  shows "rows st' = rows st \<and> cells st' = cells st \<and> cellIndex st' = cellIndex st"
proof -
  let ?st1 = "st\<lparr>tableProp := (tableProp st)
                  (tn \<mapsto> \<lparr>headerCells = [], spanArrowId = span_id tn, tbody = tBody tableElem\<rparr>)\<rparr>"
  from assms obtain ths st2 where p: "prepare_cells ?st1 tableElem 0 ths = Inr st2"
    "tHead tableElem = FirstRow ths"
    by (auto simp: prepareTables_def Let_def split: sum.splits first_row.splits)
  from prepareTables_result[OF assms p(2)] show ?thesis by simp
qed

lemma setup_frame:
  "jrSortTables_setup st tables = Inr st' \<Longrightarrow>
   rows st' = rows st \<and> cells st' = cells st \<and> cellIndex st' = cellIndex st"
proof (induction tables arbitrary: st)
  case Nil
  then show ?case by simp
next
  case (Cons t ts)
  then show ?case
    by (auto split: sum.splits dest!: prepareTables_frame)
qed

text \<open>
  The same through \<open>setup\<close> and clicks. \<open>setup\<close> leaves every header cell of a table not
  sorted and with direction up, and leaves the table it prepared last under the key
  \<open>undefined\<close>. So on a page as \<open>setup\<close> has left it, three clicks on a header cell of the
  last table give the ascending order, its reverse, and the ascending order again.
\<close>

theorem three_clicks_after_setup:
  assumes su: "jrSortTables_setup st (tables @ [tbl]) = Inr st0"
    and hd: "tHead tbl = FirstRow ths" and tbd: "tBody tbl = Some tb"
    and th: "th \<in> set ths" and c: "cellIndex st th < length ths"
    and d: "distinct (rows st tb)"
    and cl: "\<forall>row \<in> set (rows st tb). cellIndex st th < length (cells st row)"
    and lc: "consistent lc"
  shows "\<exists>h st1 st2 st3.
     th_props st0 (ths ! cellIndex st th) = Some h \<and>
     click lc st0 th = Inr st1 \<and> click lc st1 th = Inr st2 \<and> click lc st2 th = Inr st3 \<and>
     mset (rows st1 tb) = mset (rows st tb) \<and>
     sorted_wrt (\<lambda>r r'. sort_le lc (sortfn h)
                  (cell_text st (cellIndex st th) r) (cell_text st (cellIndex st th) r'))
       (rows st1 tb) \<and>
     rows st2 tb = rev (rows st1 tb) \<and>
     rows st3 tb = rev (rows st2 tb) \<and>
     rows st3 tb = rows st1 tb"
proof -
  from su obtain s where s: "jrSortTables_setup st tables = Inr s"
    and pt: "prepareTables s tbl Undefined = Inr st0"
    by (auto simp: setup_append split: sum.splits)
  from setup_frame[OF s] have fs: "rows s = rows st" "cells s = cells st" "cellIndex s = cellIndex st"
    by simp_all
  from prepareTables_result[OF pt hd]
  have p: "tableProp st0 Undefined =
      Some \<lparr>headerCells = ths, spanArrowId = span_id Undefined, tbody = tBody tbl\<rparr>"
    (is "_ = Some ?p")
    and fr: "\<forall>c \<in> set ths. fresh (th_props st0 c) \<and> onclick st0 c = Some Undefined"
    and f0: "rows st0 = rows s" "cells st0 = cells s" "cellIndex st0 = cellIndex s"
    by simp_all
  have ci: "cellIndex st0 th = cellIndex st th" using f0 fs by simp
  have "ths ! cellIndex st th \<in> set ths" using c by simp
  with fr obtain h where h: "th_props st0 (ths ! cellIndex st th) = Some h"
    "\<not> isSorted h" "sortdir h = Up"
    by (auto simp: fresh_def split: option.splits)
  have oc: "onclick st0 th = Some Undefined" using fr th by simp
  have "\<exists>cur st1 st2 st3.
     jrSortTables_sort lc st0 Undefined th = Inr st1 \<and>
     jrSortTables_sort lc st1 Undefined th = Inr st2 \<and>
     jrSortTables_sort lc st2 Undefined th = Inr st3 \<and>
     sorted_wrt (\<lambda>a b. sort_le lc (sortfn h) (fst a) (fst b)) cur \<and>
     mset cur = mset (map (\<lambda>row. (cell_text st0 (cellIndex st0 th) row, row)) (rows st0 tb)) \<and>
     rows st1 tb = map snd cur \<and> rows st2 tb = rev (map snd cur) \<and> rows st3 tb = map snd cur \<and>
     onclick st1 = onclick st0 \<and> onclick st2 = onclick st0"
    by (rule three_sorts[of st0 Undefined ?p tb th h lc])
      (use p tbd c h d cl lc f0 fs in \<open>simp_all\<close>)
  then obtain cur st1 st2 st3 where r:
    "jrSortTables_sort lc st0 Undefined th = Inr st1" "jrSortTables_sort lc st1 Undefined th = Inr st2"
    "jrSortTables_sort lc st2 Undefined th = Inr st3"
    "sorted_wrt (\<lambda>a b. sort_le lc (sortfn h) (fst a) (fst b)) cur"
    "mset cur = mset (map (\<lambda>row. (cell_text st0 (cellIndex st0 th) row, row)) (rows st0 tb))"
    "rows st1 tb = map snd cur" "rows st2 tb = rev (map snd cur)" "rows st3 tb = map snd cur"
    "onclick st1 = onclick st0" "onclick st2 = onclick st0"
    by blast
  have ct: "cell_text st0 = cell_text st"
    using f0 fs by (simp add: cell_text_def fun_eq_iff)
  have r5: "mset cur = mset (map (\<lambda>row. (cell_text st (cellIndex st th) row, row)) (rows st tb))"
    using r(5) ct ci f0 fs by simp
  have "mset (rows st1 tb) = mset (rows st tb)"
    using rows_of_sorted_keys[OF r5] r(6) by simp
  moreover have "sorted_wrt (\<lambda>r r'. sort_le lc (sortfn h)
                  (cell_text st (cellIndex st th) r) (cell_text st (cellIndex st th) r'))
       (rows st1 tb)"
    using sorted_rows_of_sorted_keys[OF r(4) r5] r(6) by simp
  ultimately show ?thesis
    using r h oc by (intro exI[of _ h] exI[of _ st1] exI[of _ st2] exI[of _ st3]) (simp add: click_def)
qed

theorem three_clicks_after_setup_witness:
  "jrSortTables_setup names_page ([] @ [names_table]) = Inr names_ready \<and>
   tHead names_table = FirstRow [1, 2] \<and> tBody names_table = Some 10 \<and>
   2 \<in> set [1, 2 :: node] \<and> cellIndex names_page 2 < length [1, 2 :: node] \<and>
   distinct (rows names_page 10) \<and> consistent codeunit_compare \<and>
   (\<exists>h st1 st2 st3.
     th_props names_ready 2 = Some h \<and>
     click codeunit_compare names_ready 2 = Inr st1 \<and>
     click codeunit_compare st1 2 = Inr st2 \<and>
     click codeunit_compare st2 2 = Inr st3 \<and>
     mset (rows st1 10) = mset (rows names_page 10) \<and>
     sorted_wrt (\<lambda>r r'. sort_le codeunit_compare (sortfn h)
                  (cell_text names_page 1 r) (cell_text names_page 1 r'))
       (rows st1 10) \<and>
     rows st2 10 = rev (rows st1 10) \<and>
     rows st3 10 = rev (rows st2 10) \<and>
     rows st3 10 = rows st1 10)"
proof -
  have su: "jrSortTables_setup names_page ([] @ [names_table]) = Inr names_ready"
    using names_setup by simp
  have t: "tHead names_table = FirstRow [1, 2]" "tBody names_table = Some 10"
    by (simp_all add: names_table_def)
  have c: "cellIndex names_page 2 = 1"
    by (simp add: names_page_def)
  have d: "distinct (rows names_page 10)"
    by (simp add: names_page_def)
  have cl: "\<forall>row \<in> set (rows names_page 10). cellIndex names_page 2 < length (cells names_page row)"
    by (simp add: names_page_def)
  have th: "2 \<in> set [1, 2 :: node]" "cellIndex names_page 2 < length [1, 2 :: node]"
    by (simp_all add: c)
  from three_clicks_after_setup[OF su t th d cl consistent_codeunit_compare]
  show ?thesis
    using su t c d consistent_codeunit_compare by simp
qed

subsection \<open>Toggling\<close>

lemma names_first_click:
  "jrSortTables_sort codeunit_compare names_ready Undefined 2 = Inr names_sorted"
  by (simp add: jrSortTables_sort_def names_ready_def names_page_def names_prop_def
      date_header_def name_header_def names_sorted_def date_header_sorted_def finish_sort_def Let_def
      getElementText_def white_space_def call_def sortDate_result substr_def js_int_sign
      closure0_def appendChild_def appendFragment_def fun_upd_def fun_eq_iff)

text \<open>
  A first sort request leaves the column sorted in the sense of \<open>sorted_column\<close>, and every
  later request on it keeps it so.
\<close>

lemma first_sort_sorted_column:
  assumes p: "tableProp st tn = Some p" and tb: "tbody p = Some tb"
    and c: "cellIndex st th < length (headerCells p)"
    and h: "th_props st (headerCells p ! cellIndex st th) = Some h"
    and s: "\<not> isSorted h"
    and d: "distinct (rows st tb)"
    and cl: "\<forall>row \<in> set (rows st tb). cellIndex st th < length (cells st row)"
    and lc: "sortfn h = AlphaNumeric \<longrightarrow> consistent lc"
  shows "\<exists>st1. jrSortTables_sort lc st tn th = Inr st1 \<and>
           sorted_column st1 tb (headerCells p ! cellIndex st th)"
proof -
  from first_sort[OF p tb c h s cl lc]
  obtain cur vs where cur:
    "mset cur = mset (map (\<lambda>row. (cell_text st (cellIndex st th) row, row)) (rows st tb))"
    and s1: "jrSortTables_sort lc st tn th =
       Inr (st\<lparr>vars := vs, rows := moved st tb (map snd cur),
               arrow := (arrow st)(spanArrowId p \<mapsto> (th, sortdir h)),
               th_props := (th_props st)(headerCells p ! cellIndex st th \<mapsto>
                  h\<lparr>isSorted := True, currentSortedTBody := Some cur, sortdir := sortdir h\<rparr>)\<rparr>)"
    by blast
  have m: "mset (map snd cur) = mset (rows st tb)"
    by (rule rows_of_sorted_keys[OF cur])
  then have dc: "distinct (map snd cur)" and sc: "set (rows st tb) = set (map snd cur)"
    using d by (metis mset_eq_imp_distinct_iff, metis mset_eq_setD)
  then have "moved st tb (map snd cur) tb = map snd cur"
    by (simp add: moved_tb)
  with s1 dc show ?thesis
    by (simp add: sorted_column_def)
qed

lemma toggle_sorted_column:
  assumes p: "tableProp st tn = Some p" and tb: "tbody p = Some tb"
    and c: "cellIndex st th < length (headerCells p)"
    and sc: "sorted_column st tb (headerCells p ! cellIndex st th)"
  shows "\<exists>st'. jrSortTables_sort lc st tn th = Inr st' \<and>
           sorted_column st' tb (headerCells p ! cellIndex st th)"
proof -
  from sc obtain h cur where h: "th_props st (headerCells p ! cellIndex st th) = Some h"
    "isSorted h" "currentSortedTBody h = Some cur" "distinct (map snd cur)"
    "mset (rows st tb) = mset (map snd cur)"
    by (auto simp: sorted_column_def split: option.splits)
  let ?seq = "if sortdir h = Up then rev (map snd cur) else map snd cur"
  have "distinct ?seq" "set (rows st tb) \<subseteq> set ?seq"
    using h(4,5) by (simp, metis mset_eq_setD set_rev subset_refl)
  then have "moved st tb ?seq tb = ?seq"
    by (rule moved_tb)
  with toggle_sort[OF p tb c h(1,2,3), of lc] h(2,4) show ?thesis
    by (simp add: sorted_column_def)
qed

text \<open>
  C8. Take a column that has been sorted: its header cell holds the cached sequence, whose
  rows are distinct and are the rows the body holds. A sort request on it succeeds; the
  header cell holds the same cached sequence afterwards; the body holds the cached rows back
  to front when the direction was up and front to back when it was down, so the same rows,
  each once. Neither the comparator nor the sort primitive runs: the comparators' variables
  are as before, and the outcome is the same whatever comparator the header cell holds and
  whatever \<open>localeCompare\<close> is.
\<close>

theorem toggle_replays_cache:
  assumes p: "tableProp st tn = Some p" and tb: "tbody p = Some tb"
    and c: "cellIndex st th < length (headerCells p)"
    and h: "th_props st (headerCells p ! cellIndex st th) = Some h"
    and s: "isSorted h" and cur: "currentSortedTBody h = Some cur"
    and d: "distinct (map snd cur)"
    and m: "mset (rows st tb) = mset (map snd cur)"
  shows "\<exists>st' h'.
     jrSortTables_sort lc st tn th = Inr st' \<and>
     th_props st' (headerCells p ! cellIndex st th) = Some h' \<and>
     currentSortedTBody h' = Some cur \<and>
     rows st' tb = (if sortdir h = Up then rev (map snd cur) else map snd cur) \<and>
     mset (rows st' tb) = mset (rows st tb) \<and>
     vars st' = vars st \<and>
     (\<forall>lc' f'.
        map_sum id (\<lambda>s. rows s tb)
          (jrSortTables_sort lc'
             (st\<lparr>th_props := (th_props st)(headerCells p ! cellIndex st th \<mapsto> h\<lparr>sortfn := f'\<rparr>)\<rparr>)
             tn th) =
        Inr (rows st' tb))"
proof -
  let ?hc = "headerCells p ! cellIndex st th"
  let ?seq = "if sortdir h = Up then rev (map snd cur) else map snd cur"
  let ?st' = "st\<lparr>rows := moved st tb ?seq,
               arrow := (arrow st)(spanArrowId p \<mapsto> (th, if sortdir h = Up then Down else Up)),
               th_props := (th_props st)(?hc \<mapsto>
                  h\<lparr>currentSortedTBody := Some cur,
                    sortdir := (if sortdir h = Up then Down else Up)\<rparr>)\<rparr>"
  have s1: "jrSortTables_sort lc st tn th = Inr ?st'"
    by (rule toggle_sort[OF p tb c h s cur])
  have sub: "set (rows st tb) \<subseteq> set ?seq"
    using m by (metis mset_eq_setD set_rev subset_refl)
  have "distinct ?seq" using d by simp
  from moved_tb[OF this sub] have r: "rows ?st' tb = ?seq" by simp
  have ms: "mset (rows ?st' tb) = mset (rows st tb)"
    using r m by simp
  have ind: "\<And>lc' f'. map_sum id (\<lambda>s. rows s tb)
          (jrSortTables_sort lc' (st\<lparr>th_props := (th_props st)(?hc \<mapsto> h\<lparr>sortfn := f'\<rparr>)\<rparr>) tn th) =
        Inr (rows ?st' tb)"
  proof -
    fix lc' f'
    let ?s = "st\<lparr>th_props := (th_props st)(?hc \<mapsto> h\<lparr>sortfn := f'\<rparr>)\<rparr>"
    have "jrSortTables_sort lc' ?s tn th =
       Inr (?s\<lparr>rows := moved ?s tb ?seq,
               arrow := (arrow ?s)(spanArrowId p \<mapsto> (th, if sortdir h = Up then Down else Up)),
               th_props := (th_props ?s)(?hc \<mapsto>
                  h\<lparr>sortfn := f', currentSortedTBody := Some cur,
                    sortdir := (if sortdir h = Up then Down else Up)\<rparr>)\<rparr>)"
      using toggle_sort[of ?s tn p tb th "h\<lparr>sortfn := f'\<rparr>" cur lc'] p tb c s cur by simp
    then show "map_sum id (\<lambda>s. rows s tb) (jrSortTables_sort lc' ?s tn th) = Inr (rows ?st' tb)"
      by (simp add: moved_def)
  qed
  show ?thesis
    using s1 r ms ind by (intro exI[of _ ?st']) simp
qed

theorem toggle_replays_cache_witness:
  "jrSortTables_sort codeunit_compare names_ready Undefined 2 = Inr names_sorted \<and>
   tableProp names_sorted Undefined = Some names_prop \<and> tbody names_prop = Some 10 \<and>
   cellIndex names_sorted 2 < length (headerCells names_prop) \<and>
   th_props names_sorted (headerCells names_prop ! cellIndex names_sorted 2) = Some date_header_sorted \<and>
   isSorted date_header_sorted \<and>
   currentSortedTBody date_header_sorted =
     Some [(''03/04/2023'', 13), (''25/12/2023'', 11), (''01/01/2024'', 12)] \<and>
   rows names_sorted 10 = [13, 11, 12] \<and>
   (\<exists>st' h'.
     jrSortTables_sort codeunit_compare names_sorted Undefined 2 = Inr st' \<and>
     th_props st' 2 = Some h' \<and>
     currentSortedTBody h' =
       Some [(''03/04/2023'', 13), (''25/12/2023'', 11), (''01/01/2024'', 12)] \<and>
     rows st' 10 = [12, 11, 13] \<and>
     vars st' = vars names_sorted)"
proof -
  have p: "tableProp names_sorted Undefined = Some names_prop"
    by (simp add: names_sorted_def names_ready_def)
  have t: "tbody names_prop = Some 10"
    by (simp add: names_prop_def)
  have c: "cellIndex names_sorted 2 = 1"
    by (simp add: names_sorted_def names_ready_def names_page_def)
  have c': "cellIndex names_sorted 2 < length (headerCells names_prop)"
    by (simp add: c names_prop_def)
  have hc: "headerCells names_prop ! cellIndex names_sorted 2 = 2"
    by (simp add: c names_prop_def)
  have h: "th_props names_sorted (headerCells names_prop ! cellIndex names_sorted 2) = Some date_header_sorted"
    by (simp add: hc) (simp add: names_sorted_def)
  have f: "isSorted date_header_sorted" "sortdir date_header_sorted = Up"
    "currentSortedTBody date_header_sorted =
     Some [(''03/04/2023'', 13), (''25/12/2023'', 11), (''01/01/2024'', 12)]"
    by (simp_all add: date_header_sorted_def)
  have r: "rows names_sorted 10 = [13, 11, 12]"
    by (simp add: names_sorted_def)
  from toggle_replays_cache[of names_sorted Undefined names_prop 10 2 date_header_sorted
      "[(''03/04/2023'', 13), (''25/12/2023'', 11), (''01/01/2024'', 12)]" codeunit_compare,
      OF p t c' h f(1) f(3)]
  show ?thesis
    using names_first_click p t c' h f r hc by auto
qed

subsection \<open>Several tables\<close>

lemma guess_letter:
  "guessDataType ''b'' = AlphaNumeric" "guessDataType ''y'' = AlphaNumeric"
  by (simp_all add: guessDataType_def rx_number_def Opt_def Plus_def digits_def white_space_def
      rx_date_def all_digits_def)

lemma key_class_letter:
  "key_class ''x'' = JString ''x''" "key_class ''y'' = JString ''y''"
  by (simp_all add: key_class_def rx_leading_zero_def Plus_def parseFloat_def scan_decimal_def
      scan_unsigned_def is_space_def white_space_def is_digit_def digits_def Let_def)

text \<open>
  C2. \<open>setup\<close> calls \<open>prepareTables(tbl)\<close> without the table number, so every table is
  stored under the one key \<open>undefined\<close> and the last table overwrites the others. On a page
  with two tables, a click on the header of the first table leaves the rows of the first
  table as they were, sorts the rows of the second, marks the second table's header cell as
  sorted, and puts the arrow (whose id both tables share) into the first table's header.
\<close>

theorem click_on_first_table_sorts_second:
  "\<exists>st1 st2.
     jrSortTables_setup two_tables_page [first_table, second_table] = Inr st1 \<and>
     tableProp st1 =
       [Undefined \<mapsto> \<lparr>headerCells = [2], spanArrowId = ''jrSortSpanundefined'', tbody = Some 20\<rparr>] \<and>
     onclick st1 1 = Some Undefined \<and> onclick st1 2 = Some Undefined \<and>
     click codeunit_compare st1 1 = Inr st2 \<and>
     rows st2 10 = [11, 12] \<and> rows st2 20 = [22, 21] \<and>
     map_option isSorted (th_props st2 1) = Some False \<and>
     map_option isSorted (th_props st2 2) = Some True \<and>
     arrow st2 ''jrSortSpanundefined'' = Some (1, Up)"
  by (simp add: prepareTables_def two_tables_page_def first_table_def second_table_def
      addEvent_def getSortFn_def sort_functions_def match_here_def span_id_def
      getElementText_def white_space_def guess_letter click_def
      jrSortTables_sort_def finish_sort_def Let_def call_def alphaNumeric_result
      key_class_letter codeunit_compare_def js_int_sign
      appendChild_def appendFragment_def)

end
